theory Spec2Isabelle
  imports Complex_Main
begin

section \<open>Values of the host language\<close>

text \<open>
  The page \<^verbatim>\<open>src/app/page.tsx\<close> is a React client component.  Its logic uses a few
  built-ins of the host (ECMAScript numbers, \<^verbatim>\<open>Date\<close>, \<^verbatim>\<open>URLSearchParams\<close>,
  \<^verbatim>\<open>fetch\<close>, JSON).  They are modelled here as far as the page uses them.

  A number is an IEEE double.  It is modelled by its exact rational value, with the
  three non-finite values the page can produce; rounding and the sign of zero are
  not modelled.
\<close>

datatype jsnum = NaN | NegInfinity | Fin rat | PosInfinity

text \<open>A value produced by \<^verbatim>\<open>response.json()\<close>; an object keeps its members in
  source order.\<close>

datatype json =
    JNull
  | JBool bool
  | JNum jsnum
  | JStr string
  | JArr "json list"
  | JObj "(string \<times> json) list"

text \<open>What a \<^verbatim>\<open>catch\<close> clause receives: an \<^verbatim>\<open>Error\<close> instance with its message, or
  any other thrown value.\<close>

datatype thrown = ErrorObject string | NonError

section \<open>Calendar arithmetic of ECMA-262 (Date objects)\<close>

text \<open>Time values are integral milliseconds since the epoch, so \<open>int\<close> is exact.\<close>

definition msPerDay :: int where
  "msPerDay = 86400000"

definition Day :: "int \<Rightarrow> int" where
  "Day tv = tv div msPerDay"

definition TimeWithinDay :: "int \<Rightarrow> int" where
  "TimeWithinDay tv = tv mod msPerDay"

definition DaysInYear :: "int \<Rightarrow> int" where
  "DaysInYear y =
     (if y mod 4 \<noteq> 0 then 365
      else if y mod 100 \<noteq> 0 then 366
      else if y mod 400 \<noteq> 0 then 365
      else 366)"

definition DayFromYear :: "int \<Rightarrow> int" where
  "DayFromYear y =
     365 * (y - 1970) + (y - 1969) div 4 - (y - 1901) div 100 + (y - 1601) div 400"

text \<open>ECMA-262 defines the year of a day as the largest \<open>y\<close> with
  \<open>DayFromYear y \<le> d\<close>; \<open>year_search\<close> walks to it from an estimate.\<close>

function year_search :: "int \<Rightarrow> int \<Rightarrow> int" where
  "year_search d y =
     (if DayFromYear (y + 1) \<le> d then year_search d (y + 1)
      else if d < DayFromYear y then year_search d (y - 1)
      else y)"
  by pat_completeness auto
termination
proof (relation "measure (\<lambda>(d, y). if d < DayFromYear y then nat (DayFromYear y - d) + 366
                                   else nat (d - DayFromYear y))")
  have div_step: "(x + 1) div k = (if k dvd x + 1 then x div k + 1 else x div k)"
    if k: "0 < k" for x k :: int
  proof (cases "k dvd x + 1")
    case True
    then obtain q where q: "x + 1 = k * q" by (auto simp: dvd_def)
    then have "x = k * (q - 1) + (k - 1)" by (simp add: algebra_simps)
    then have "x div k = q - 1"
      using k int_div_pos_eq [of x k "q - 1" "k - 1"] by simp
    moreover have "(x + 1) div k = q" using q k by simp
    ultimately show ?thesis using True by simp
  next
    case False
    have r: "0 \<le> x mod k" "x mod k < k" using k by simp_all
    have "x mod k + 1 \<noteq> k"
    proof
      assume e: "x mod k + 1 = k"
      have "x + 1 = k * (x div k) + (x mod k + 1)" by simp
      also have "\<dots> = k * (x div k + 1)" by (subst e) (simp add: algebra_simps)
      finally have "k dvd x + 1" by (metis dvd_triv_left)
      with False show False by simp
    qed
    with r have r': "x mod k + 1 < k" by simp
    have "x + 1 = k * (x div k) + (x mod k + 1)" by simp
    then have "(x + 1) div k = x div k"
      using r r' int_div_pos_eq [of "x + 1" k "x div k" "x mod k + 1"] by simp
    with False show ?thesis by simp
  qed
  have step: "DayFromYear (y + 1) = DayFromYear y + DaysInYear y" for y
  proof -
    have d4: "4 dvd (y - 1969 + 1) \<longleftrightarrow> 4 dvd y"
    proof -
      have "(4::int) dvd 1968" by simp
      then have "4 dvd (y - 1968) \<longleftrightarrow> 4 dvd y" by (rule dvd_diff_left_iff)
      then show ?thesis by simp
    qed
    have d100: "100 dvd (y - 1901 + 1) \<longleftrightarrow> 100 dvd y"
    proof -
      have "(100::int) dvd 1900" by simp
      then have "100 dvd (y - 1900) \<longleftrightarrow> 100 dvd y" by (rule dvd_diff_left_iff)
      then show ?thesis by simp
    qed
    have d400: "400 dvd (y - 1601 + 1) \<longleftrightarrow> 400 dvd y"
    proof -
      have "(400::int) dvd 1600" by simp
      then have "400 dvd (y - 1600) \<longleftrightarrow> 400 dvd y" by (rule dvd_diff_left_iff)
      then show ?thesis by simp
    qed
    have i1: "100 dvd y \<Longrightarrow> 4 dvd y"
      using dvd_trans [of 4 100 y] by simp
    have i2: "400 dvd y \<Longrightarrow> 100 dvd y"
      using dvd_trans [of 100 400 y] by simp
    have "DayFromYear (y + 1) =
        365 * (y - 1970) + 365 + (y - 1969 + 1) div 4 - (y - 1901 + 1) div 100
          + (y - 1601 + 1) div 400"
      by (simp add: DayFromYear_def algebra_simps)
    also have "\<dots> = DayFromYear y + DaysInYear y"
      unfolding div_step [of 4, simplified] div_step [of 100, simplified]
        div_step [of 400, simplified] d4 d100 d400 DaysInYear_def DayFromYear_def
        mod_eq_0_iff_dvd
      using i1 i2 by auto
    finally show ?thesis .
  qed
  have len: "365 \<le> DaysInYear y \<and> DaysInYear y \<le> 366" for y
    by (simp add: DaysInYear_def)
  show "wf (measure (\<lambda>(d, y). if d < DayFromYear y then nat (DayFromYear y - d) + 366
                                   else nat (d - DayFromYear y)))"
    by simp
  show "((d, y + 1), (d, y)) \<in> measure (\<lambda>(d, y). if d < DayFromYear y
      then nat (DayFromYear y - d) + 366 else nat (d - DayFromYear y))"
    if "DayFromYear (y + 1) \<le> d" for d y
    using that step [of y] len [of y] by simp
  show "((d, y - 1), (d, y)) \<in> measure (\<lambda>(d, y). if d < DayFromYear y
      then nat (DayFromYear y - d) + 366 else nat (d - DayFromYear y))"
    if "\<not> DayFromYear (y + 1) \<le> d" and "d < DayFromYear y" for d y
    using that step [of "y - 1"] len [of "y - 1"] by (simp del: nat_less_iff) linarith
qed

declare year_search.simps [simp del]

definition YearFromDay :: "int \<Rightarrow> int" where
  "YearFromDay d = year_search d (1970 + d div 366)"

definition YearFromTime :: "int \<Rightarrow> int" where
  "YearFromTime tv = YearFromDay (Day tv)"

definition InLeapYear :: "int \<Rightarrow> int" where
  "InLeapYear y = (if DaysInYear y = 366 then 1 else 0)"

definition DayWithinYear :: "int \<Rightarrow> int" where
  "DayWithinYear tv = Day tv - DayFromYear (YearFromTime tv)"

text \<open>The number of days before month \<open>m\<close> (0 = January) in a year with leap flag
  \<open>l\<close>: the table behind \<^verbatim>\<open>MonthFromTime\<close>, \<^verbatim>\<open>DateFromTime\<close> and \<^verbatim>\<open>MakeDay\<close>.\<close>

definition DaysBeforeMonth :: "int \<Rightarrow> int \<Rightarrow> int" where
  "DaysBeforeMonth l m =
     (if m = 0 then 0 else if m = 1 then 31 else if m = 2 then 59 + l
      else if m = 3 then 90 + l else if m = 4 then 120 + l else if m = 5 then 151 + l
      else if m = 6 then 181 + l else if m = 7 then 212 + l else if m = 8 then 243 + l
      else if m = 9 then 273 + l else if m = 10 then 304 + l else 334 + l)"

definition MonthFromDayInYear :: "int \<Rightarrow> int \<Rightarrow> int" where
  "MonthFromDayInYear l dwy =
     (if dwy < 31 then 0 else if dwy < 59 + l then 1 else if dwy < 90 + l then 2
      else if dwy < 120 + l then 3 else if dwy < 151 + l then 4 else if dwy < 181 + l then 5
      else if dwy < 212 + l then 6 else if dwy < 243 + l then 7 else if dwy < 273 + l then 8
      else if dwy < 304 + l then 9 else if dwy < 334 + l then 10 else 11)"

definition MonthFromTime :: "int \<Rightarrow> int" where
  "MonthFromTime tv = MonthFromDayInYear (InLeapYear (YearFromTime tv)) (DayWithinYear tv)"

definition DateFromTime :: "int \<Rightarrow> int" where
  "DateFromTime tv =
     DayWithinYear tv - DaysBeforeMonth (InLeapYear (YearFromTime tv)) (MonthFromTime tv) + 1"

definition HourFromTime :: "int \<Rightarrow> int" where
  "HourFromTime tv = (tv div 3600000) mod 24"

definition MinFromTime :: "int \<Rightarrow> int" where
  "MinFromTime tv = (tv div 60000) mod 60"

definition SecFromTime :: "int \<Rightarrow> int" where
  "SecFromTime tv = (tv div 1000) mod 60"

definition msFromTime :: "int \<Rightarrow> int" where
  "msFromTime tv = tv mod 1000"

definition MakeTime :: "int \<Rightarrow> int \<Rightarrow> int \<Rightarrow> int \<Rightarrow> int" where
  "MakeTime h m s ms = h * 3600000 + m * 60000 + s * 1000 + ms"

definition MakeDay :: "int \<Rightarrow> int \<Rightarrow> int \<Rightarrow> int" where
  "MakeDay year month date =
     (let ym = year + month div 12; mn = month mod 12
      in DayFromYear ym + DaysBeforeMonth (InLeapYear ym) mn + date - 1)"

definition MakeDate :: "int \<Rightarrow> int \<Rightarrow> int" where
  "MakeDate day time = day * msPerDay + time"

text \<open>\<^verbatim>\<open>TimeClip\<close>: a time value beyond 8.64e15 ms is \<^verbatim>\<open>NaN\<close> (here \<open>None\<close>).\<close>

definition TimeClip :: "int \<Rightarrow> int option" where
  "TimeClip tv = (if \<bar>tv\<bar> > 8640000000000000 then None else Some tv)"


section \<open>Date strings: \<^verbatim>\<open>toISOString\<close> and the Date Time String Format\<close>

definition digit_char :: "nat \<Rightarrow> char" where
  "digit_char n = char_of (48 + n mod 10)"

definition two_digits :: "nat \<Rightarrow> string" where
  "two_digits n = [digit_char (n div 10), digit_char n]"

definition three_digits :: "nat \<Rightarrow> string" where
  "three_digits n = digit_char (n div 100) # two_digits n"

definition four_digits :: "nat \<Rightarrow> string" where
  "four_digits n = digit_char (n div 1000) # three_digits n"

definition six_digits :: "nat \<Rightarrow> string" where
  "six_digits n = digit_char (n div 100000) # digit_char (n div 10000) # four_digits n"

text \<open>Years 0 to 9999 are written with four digits, all others as an expanded
  year: a sign and six digits.\<close>

definition year_string :: "int \<Rightarrow> string" where
  "year_string y =
     (if 0 \<le> y \<and> y \<le> 9999 then four_digits (nat y)
      else if y < 0 then CHR ''-'' # six_digits (nat (- y))
      else CHR ''+'' # six_digits (nat y))"

text \<open>\<^verbatim>\<open>Date.prototype.toISOString\<close>: always UTC, always with milliseconds.\<close>

definition toISOString :: "int \<Rightarrow> string" where
  "toISOString tv =
     year_string (YearFromTime tv) @ ''-'' @ two_digits (nat (MonthFromTime tv + 1)) @ ''-''
       @ two_digits (nat (DateFromTime tv)) @ ''T'' @ two_digits (nat (HourFromTime tv))
       @ '':'' @ two_digits (nat (MinFromTime tv)) @ '':'' @ two_digits (nat (SecFromTime tv))
       @ ''.'' @ three_digits (nat (msFromTime tv)) @ ''Z''"

definition digit_val :: "char \<Rightarrow> nat option" where
  "digit_val c =
     (let n = (of_char c :: nat) in if 48 \<le> n \<and> n \<le> 57 then Some (n - 48) else None)"

text \<open>\<open>take_digits k acc s\<close> reads exactly \<open>k\<close> decimal digits from the front of
  \<open>s\<close>.\<close>

fun take_digits :: "nat \<Rightarrow> nat \<Rightarrow> string \<Rightarrow> (nat \<times> string) option" where
  "take_digits 0 acc s = Some (acc, s)"
| "take_digits (Suc k) acc [] = None"
| "take_digits (Suc k) acc (c # cs) =
     (case digit_val c of None \<Rightarrow> None | Some v \<Rightarrow> take_digits k (10 * acc + v) cs)"

definition read2 :: "string \<Rightarrow> (nat \<times> string) option" where
  "read2 s = take_digits (Suc (Suc 0)) 0 s"

definition read3 :: "string \<Rightarrow> (nat \<times> string) option" where
  "read3 s = take_digits (Suc (Suc (Suc 0))) 0 s"

definition read4 :: "string \<Rightarrow> (nat \<times> string) option" where
  "read4 s = take_digits (Suc (Suc (Suc (Suc 0)))) 0 s"

definition read6 :: "string \<Rightarrow> (nat \<times> string) option" where
  "read6 s = take_digits (Suc (Suc (Suc (Suc (Suc (Suc 0)))))) 0 s"

definition expect :: "char \<Rightarrow> string \<Rightarrow> string option" where
  "expect c s = (case s of [] \<Rightarrow> None | x # r \<Rightarrow> if x = c then Some r else None)"

text \<open>A year is \<^verbatim>\<open>YYYY\<close>, or expanded \<^verbatim>\<open>+YYYYYY\<close> / \<^verbatim>\<open>-YYYYYY\<close>; \<^verbatim>\<open>-000000\<close> is
  not a year.\<close>

definition parse_year :: "string \<Rightarrow> (int \<times> string) option" where
  "parse_year s =
     (case s of
        [] \<Rightarrow> None
      | c # r \<Rightarrow>
          if c = CHR ''+'' then
            (case read6 r of None \<Rightarrow> None | Some (y, r') \<Rightarrow> Some (int y, r'))
          else if c = CHR ''-'' then
            (case read6 r of None \<Rightarrow> None
             | Some (y, r') \<Rightarrow> if y = 0 then None else Some (- int y, r'))
          else
            (case read4 s of None \<Rightarrow> None | Some (y, r') \<Rightarrow> Some (int y, r')))"

text \<open>The date forms \<^verbatim>\<open>YYYY\<close>, \<^verbatim>\<open>YYYY-MM\<close> and \<^verbatim>\<open>YYYY-MM-DD\<close>: year, month (from 1),
  day, and the rest of the input.\<close>

definition parse_date :: "string \<Rightarrow> (int \<times> int \<times> int \<times> string) option" where
  "parse_date s =
     (case parse_year s of
        None \<Rightarrow> None
      | Some (y, r1) \<Rightarrow>
          (case expect CHR ''-'' r1 of
             None \<Rightarrow> Some (y, 1, 1, r1)
           | Some r2 \<Rightarrow>
               (case read2 r2 of
                  None \<Rightarrow> None
                | Some (mo, r3) \<Rightarrow>
                    (case expect CHR ''-'' r3 of
                       None \<Rightarrow> Some (y, int mo, 1, r3)
                     | Some r4 \<Rightarrow>
                         (case read2 r4 of
                            None \<Rightarrow> None
                          | Some (d, r5) \<Rightarrow> Some (y, int mo, int d, r5))))))"

text \<open>The time forms \<^verbatim>\<open>HH:mm\<close>, \<^verbatim>\<open>HH:mm:ss\<close> and \<^verbatim>\<open>HH:mm:ss.sss\<close>: hour, minute,
  second, millisecond, and the rest of the input.\<close>

definition parse_time :: "string \<Rightarrow> (int \<times> int \<times> int \<times> int \<times> string) option" where
  "parse_time s =
     (case read2 s of
        None \<Rightarrow> None
      | Some (h, r1) \<Rightarrow>
          (case expect CHR '':'' r1 of
             None \<Rightarrow> None
           | Some r2 \<Rightarrow>
               (case read2 r2 of
                  None \<Rightarrow> None
                | Some (mi, r3) \<Rightarrow>
                    (case expect CHR '':'' r3 of
                       None \<Rightarrow> Some (int h, int mi, 0, 0, r3)
                     | Some r4 \<Rightarrow>
                         (case read2 r4 of
                            None \<Rightarrow> None
                          | Some (sec, r5) \<Rightarrow>
                              (case expect CHR ''.'' r5 of
                                 None \<Rightarrow> Some (int h, int mi, int sec, 0, r5)
                               | Some r6 \<Rightarrow>
                                   (case read3 r6 of
                                      None \<Rightarrow> None
                                    | Some (ms, r7) \<Rightarrow>
                                        Some (int h, int mi, int sec, int ms, r7))))))))"

text \<open>The UTC offset: absent (local time), \<^verbatim>\<open>Z\<close>, or \<^verbatim>\<open>+HH:mm\<close> / \<^verbatim>\<open>-HH:mm\<close>
  (in milliseconds).\<close>

datatype zone = LocalTime | UTCOffset int

definition parse_zone :: "string \<Rightarrow> zone option" where
  "parse_zone s =
     (case s of
        [] \<Rightarrow> Some LocalTime
      | c # r \<Rightarrow>
          if s = ''Z'' then Some (UTCOffset 0)
          else if c = CHR ''+'' \<or> c = CHR ''-'' then
            (case read2 r of
               None \<Rightarrow> None
             | Some (h, r1) \<Rightarrow>
                 (case expect CHR '':'' r1 of
                    None \<Rightarrow> None
                  | Some r2 \<Rightarrow>
                      (case read2 r2 of
                         None \<Rightarrow> None
                       | Some (mi, r3) \<Rightarrow>
                           if r3 = [] \<and> h \<le> 23 \<and> mi \<le> 59 then
                             Some (UTCOffset ((if c = CHR ''-'' then - 1 else 1)
                                     * (int h * 3600000 + int mi * 60000)))
                           else None)))
          else None)"

definition fields_in_range :: "int \<Rightarrow> int \<Rightarrow> int \<Rightarrow> int \<Rightarrow> int \<Rightarrow> int \<Rightarrow> bool" where
  "fields_in_range mo d h mi sec ms \<longleftrightarrow>
     1 \<le> mo \<and> mo \<le> 12 \<and> 1 \<le> d \<and> d \<le> 31
     \<and> (h \<le> 23 \<or> (h = 24 \<and> mi = 0 \<and> sec = 0 \<and> ms = 0)) \<and> mi \<le> 59 \<and> sec \<le> 59"

text \<open>
  \<^verbatim>\<open>Date.parse\<close> on the Date Time String Format of ECMA-262.  A date-only form is UTC;
  a date-time form without offset is local time, converted with the host's offset
  \<open>tza\<close> (milliseconds, as a function of the local time value: the time zone and its
  daylight-saving rules are the host's).  Engines may accept further, legacy formats
  through heuristics of their own; this function accepts none (\<open>None\<close> is \<^verbatim>\<open>NaN\<close>).
\<close>

definition Date_parse_iso :: "(int \<Rightarrow> int) \<Rightarrow> string \<Rightarrow> int option" where
  "Date_parse_iso tza s =
     (case parse_date s of
        None \<Rightarrow> None
      | Some (y, mo, d, r) \<Rightarrow>
          if r = [] then
            (if fields_in_range mo d 0 0 0 0
             then TimeClip (MakeDate (MakeDay y (mo - 1) d) 0) else None)
          else
            (case expect CHR ''T'' r of
               None \<Rightarrow> None
             | Some r1 \<Rightarrow>
                 (case parse_time r1 of
                    None \<Rightarrow> None
                  | Some (h, mi, sec, ms, r2) \<Rightarrow>
                      (case parse_zone r2 of
                         None \<Rightarrow> None
                       | Some z \<Rightarrow>
                           if fields_in_range mo d h mi sec ms then
                             (let tv = MakeDate (MakeDay y (mo - 1) d) (MakeTime h mi sec ms)
                              in TimeClip (case z of LocalTime \<Rightarrow> tv - tza tv
                                           | UTCOffset off \<Rightarrow> tv - off))
                           else None))))"

text \<open>\<^verbatim>\<open>String.prototype.replace\<close> with a string pattern: the first occurrence only.\<close>

fun replace :: "string \<Rightarrow> string \<Rightarrow> string \<Rightarrow> string" where
  "replace pat rep [] = (if pat = [] then rep else [])"
| "replace pat rep (c # cs) =
     (if take (length pat) (c # cs) = pat then rep @ drop (length pat) (c # cs)
      else c # replace pat rep cs)"

section \<open>The page: \<^verbatim>\<open>toUTCISOString\<close>\<close>

text \<open>
  \<^verbatim>\<open>const d = new Date(localDateTime); if (Number.isNaN(d.getTime())) throw new Error(...);\<close>
  \<^verbatim>\<open>return d.toISOString().replace(".000Z", "Z")\<close>.  The parser of the host is the
  parameter \<open>parse\<close>.
\<close>

definition toUTCISOString :: "(string \<Rightarrow> int option) \<Rightarrow> string \<Rightarrow> thrown + string" where
  "toUTCISOString parse localDateTime =
     (case parse localDateTime of
        None \<Rightarrow> Inl (ErrorObject ''Invalid date/time format'')
      | Some d \<Rightarrow> Inr (replace ''.000Z'' ''Z'' (toISOString d)))"


section \<open>The page: building the request\<close>

text \<open>The \<^verbatim>\<open>application/x-www-form-urlencoded\<close> serializer behind
  \<^verbatim>\<open>URLSearchParams.prototype.toString\<close>.  A string is its sequence of UTF-8 bytes.\<close>

definition hex_char :: "nat \<Rightarrow> char" where
  "hex_char n = (if n < 10 then char_of (48 + n) else char_of (55 + n))"

definition urlencode_byte :: "char \<Rightarrow> string" where
  "urlencode_byte c =
     (let n = (of_char c :: nat) in
      if n = 32 then ''+''
      else if n = 42 \<or> n = 45 \<or> n = 46 \<or> n = 95 \<or> (48 \<le> n \<and> n \<le> 57)
              \<or> (65 \<le> n \<and> n \<le> 90) \<or> (97 \<le> n \<and> n \<le> 122) then [c]
      else [CHR ''%'', hex_char (n div 16), hex_char (n mod 16)])"

definition urlencode :: "string \<Rightarrow> string" where
  "urlencode s = concat (map urlencode_byte s)"

fun join :: "string \<Rightarrow> string list \<Rightarrow> string" where
  "join sep [] = []"
| "join sep [x] = x"
| "join sep (x # y # ys) = x @ sep @ join sep (y # ys)"

definition URLSearchParams_toString :: "(string \<times> string) list \<Rightarrow> string" where
  "URLSearchParams_toString ps = join ''&'' (map (\<lambda>(k, v). urlencode k @ ''='' @ urlencode v) ps)"

text \<open>\<^verbatim>\<open>process.env.NEXT_PUBLIC_BACKEND_URL || "http://127.0.0.1:8000"\<close>: an unset or
  empty variable gives the default.\<close>

definition backendUrl :: "string option \<Rightarrow> string" where
  "backendUrl env =
     (case env of
        None \<Rightarrow> ''http://127.0.0.1:8000''
      | Some u \<Rightarrow> if u = [] then ''http://127.0.0.1:8000'' else u)"

text \<open>The argument of \<^verbatim>\<open>fetch\<close>: \<^verbatim>\<open>`${backendUrl}/altitude?${params.toString()}`\<close>.\<close>

definition request_url :: "string option \<Rightarrow> string \<Rightarrow> string \<Rightarrow> string \<Rightarrow> string \<Rightarrow> string" where
  "request_url env n startUTC endUTC step =
     backendUrl env @ ''/altitude?''
       @ URLSearchParams_toString
           [(''n'', n), (''start'', startUTC), (''end'', endUTC), (''step_seconds'', step)]"

text \<open>
  How the collaborator reads a query string: the \<^verbatim>\<open>application/x-www-form-urlencoded\<close>
  parser of the URL standard (split at \<^verbatim>\<open>&\<close>, split each piece at its first \<^verbatim>\<open>=\<close>, turn
  \<^verbatim>\<open>+\<close> into a space, percent-decode).  It is not code of the page; it states what
  ``carries the parameter'' means.
\<close>

fun split_on :: "char \<Rightarrow> string \<Rightarrow> string list" where
  "split_on sep [] = [[]]"
| "split_on sep (c # cs) =
     (if c = sep then [] # split_on sep cs
      else (case split_on sep cs of [] \<Rightarrow> [[c]] | x # xs \<Rightarrow> (c # x) # xs))"

definition hex_val :: "char \<Rightarrow> nat option" where
  "hex_val c =
     (let n = (of_char c :: nat) in
      if 48 \<le> n \<and> n \<le> 57 then Some (n - 48)
      else if 65 \<le> n \<and> n \<le> 70 then Some (n - 55)
      else if 97 \<le> n \<and> n \<le> 102 then Some (n - 87)
      else None)"

fun percent_decode :: "string \<Rightarrow> string" where
  "percent_decode [] = []"
| "percent_decode (c # cs) =
     (if c = CHR ''%'' then
        (case cs of
           h1 # h2 # r \<Rightarrow>
             (case hex_val h1 of
                None \<Rightarrow> c # percent_decode cs
              | Some a \<Rightarrow>
                  (case hex_val h2 of
                     None \<Rightarrow> c # percent_decode cs
                   | Some b \<Rightarrow> char_of (16 * a + b) # percent_decode r))
         | _ \<Rightarrow> c # percent_decode cs)
      else c # percent_decode cs)"

definition urldecode :: "string \<Rightarrow> string" where
  "urldecode s = percent_decode (map (\<lambda>c. if c = CHR ''+'' then CHR '' '' else c) s)"

definition parse_pair :: "string \<Rightarrow> string \<times> string" where
  "parse_pair piece =
     (urldecode (takeWhile (\<lambda>c. c \<noteq> CHR ''='') piece),
      urldecode (drop 1 (dropWhile (\<lambda>c. c \<noteq> CHR ''='') piece)))"

definition parse_query :: "string \<Rightarrow> (string \<times> string) list" where
  "parse_query q = map parse_pair (filter (\<lambda>piece. piece \<noteq> []) (split_on CHR ''&'' q))"

section \<open>The page: state and \<^verbatim>\<open>handleSubmit\<close>\<close>

text \<open>The interfaces \<^verbatim>\<open>DataPoint\<close> and \<^verbatim>\<open>AltitudeResponse\<close>.  The fields \<^verbatim>\<open>t\<close> and
  \<^verbatim>\<open>end\<close> are renamed (\<open>t_field\<close>, \<open>end_field\<close>).\<close>

record DataPoint =
  t_field :: string
  alt_km :: jsnum

record ResponseMeta =
  tle_source :: string
  tle_epoch :: string
  earth_radius_km :: jsnum

record AltitudeResponse =
  norad_id :: jsnum
  start :: string
  end_field :: string
  step_seconds :: jsnum
  points :: "DataPoint list"
  meta :: ResponseMeta

text \<open>The seven \<^verbatim>\<open>useState\<close> cells of \<^verbatim>\<open>Home\<close>.\<close>

record ui_state =
  noradId :: string
  startTime :: string
  endTime :: string
  stepSeconds :: string
  loading :: bool
  error :: "string option"
  data :: "AltitudeResponse option"

definition initial_ui :: ui_state where
  "initial_ui =
     \<lparr>noradId = ''25544'', startTime = [], endTime = [], stepSeconds = ''60'',
      loading = False, error = None, data = None\<rparr>"

text \<open>What the page takes from its host: the string parser of \<^verbatim>\<open>new Date(string)\<close>
  (\<open>None\<close> is an invalid date), \<^verbatim>\<open>Number::toString\<close>, the environment variable
  that Next.js inlines at build time, the number of arguments the engine lets a call
  spread (\<^verbatim>\<open>f(...xs)\<close> with more throws a \<^verbatim>\<open>RangeError\<close>), and the messages of that
  \<^verbatim>\<open>RangeError\<close> and of the \<^verbatim>\<open>TypeError\<close> of an object that has no primitive value.\<close>

record platform =
  Date_parse :: "string \<Rightarrow> int option"
  Number_toString :: "jsnum \<Rightarrow> string"
  NEXT_PUBLIC_BACKEND_URL :: "string option"
  argument_limit :: nat
  RangeError_message :: string
  TypeError_message :: string

text \<open>\<^verbatim>\<open>catch (err) { setError(err instanceof Error ? err.message : "An error occurred") }\<close>
  and \<^verbatim>\<open>finally { setLoading(false) }\<close>.\<close>

definition catch_clause :: "thrown \<Rightarrow> ui_state \<Rightarrow> ui_state" where
  "catch_clause err s =
     s\<lparr>error := Some (case err of ErrorObject m \<Rightarrow> m | NonError \<Rightarrow> ''An error occurred'')\<rparr>"

definition finally_clause :: "ui_state \<Rightarrow> ui_state" where
  "finally_clause s = s\<lparr>loading := False\<rparr>"

text \<open>
  \<^verbatim>\<open>handleSubmit\<close> up to \<^verbatim>\<open>await fetch(...)\<close>: the three resets, the two
  normalizations and the request.  The result is the state the page is left in and
  the URL handed to \<^verbatim>\<open>fetch\<close>, if the run got that far.  When \<^verbatim>\<open>toUTCISOString\<close>
  throws, the \<^verbatim>\<open>catch\<close> and \<^verbatim>\<open>finally\<close> clauses run in the same synchronous run and
  \<^verbatim>\<open>fetch\<close> is never called.
\<close>

definition handleSubmit_start :: "platform \<Rightarrow> ui_state \<Rightarrow> ui_state \<times> string option" where
  "handleSubmit_start P s =
     (let s1 = s\<lparr>loading := True, error := None, data := None\<rparr> in
      case toUTCISOString (Date_parse P) (startTime s) of
        Inl err \<Rightarrow> (finally_clause (catch_clause err s1), None)
      | Inr startUTC \<Rightarrow>
          (case toUTCISOString (Date_parse P) (endTime s) of
             Inl err \<Rightarrow> (finally_clause (catch_clause err s1), None)
           | Inr endUTC \<Rightarrow>
               (s1, Some (request_url (NEXT_PUBLIC_BACKEND_URL P) (noradId s) startUTC endUTC
                            (stepSeconds s)))))"

text \<open>How an issued \<^verbatim>\<open>fetch\<close> ends: the promise rejects (no response at all); a response
  with \<^verbatim>\<open>response.ok\<close>, whose \<^verbatim>\<open>json()\<close> rejects or yields the body; or a response
  without \<^verbatim>\<open>response.ok\<close>, whose \<^verbatim>\<open>json()\<close> rejects or yields some JSON value.\<close>

datatype outcome =
    FetchRejected thrown
  | OkResponse "thrown + AltitudeResponse"
  | ErrorResponse "thrown + json"

fun truthy :: "json \<Rightarrow> bool" where
  "truthy JNull = False"
| "truthy (JBool b) = b"
| "truthy (JNum n) = (n \<noteq> NaN \<and> n \<noteq> Fin 0)"
| "truthy (JStr s) = (s \<noteq> [])"
| "truthy (JArr xs) = True"
| "truthy (JObj kvs) = True"

text \<open>The values of a list of results, or the first thrown value among them.\<close>

fun all_or_first_thrown :: "(thrown + 'a) list \<Rightarrow> thrown + 'a list" where
  "all_or_first_thrown [] = Inr []"
| "all_or_first_thrown (Inl e # rs) = Inl e"
| "all_or_first_thrown (Inr x # rs) =
     (case all_or_first_thrown rs of Inl e \<Rightarrow> Inl e | Inr xs \<Rightarrow> Inr (x # xs))"

text \<open>
  \<^verbatim>\<open>ToString\<close>, which \<^verbatim>\<open>new Error(detail)\<close> applies to its argument.  An array is
  joined with commas, \<^verbatim>\<open>null\<close> elements printing as nothing.  An object parsed from
  JSON prints through \<^verbatim>\<open>Object.prototype.toString\<close>, unless it has a member named
  \<^verbatim>\<open>toString\<close> of its own: that member is not callable, \<^verbatim>\<open>valueOf\<close> gives no primitive,
  and the conversion throws a \<^verbatim>\<open>TypeError\<close>.
\<close>

fun ToString :: "platform \<Rightarrow> json \<Rightarrow> thrown + string" where
  "ToString P JNull = Inr ''null''"
| "ToString P (JBool b) = Inr (if b then ''true'' else ''false'')"
| "ToString P (JNum n) = Inr (Number_toString P n)"
| "ToString P (JStr s) = Inr s"
| "ToString P (JArr xs) =
     (case all_or_first_thrown (map (\<lambda>x. if x = JNull then Inr [] else ToString P x) xs) of
        Inl e \<Rightarrow> Inl e
      | Inr ss \<Rightarrow> Inr (join '','' ss))"
| "ToString P (JObj kvs) =
     (if ''toString'' \<in> set (map fst kvs) then Inl (ErrorObject (TypeError_message P))
      else Inr ''[object Object]'')"

text \<open>\<^verbatim>\<open>errorData?.detail\<close>: \<open>None\<close> is \<^verbatim>\<open>undefined\<close>.  Of a repeated key
  \<^verbatim>\<open>JSON.parse\<close> keeps the last member.\<close>

fun optional_detail :: "json \<Rightarrow> json option" where
  "optional_detail (JObj kvs) = map_of (rev kvs) ''detail''"
| "optional_detail other = None"

text \<open>\<^verbatim>\<open>let detail = "Failed to fetch altitude data"; try { const errorData = await
  response.json(); detail = errorData?.detail || detail } catch { }\<close>, and the message
  of what \<^verbatim>\<open>throw new Error(detail)\<close> throws: the error made from the converted
  \<^verbatim>\<open>detail\<close>, or the \<^verbatim>\<open>TypeError\<close> of the conversion.\<close>

definition error_detail :: "platform \<Rightarrow> thrown + json \<Rightarrow> string" where
  "error_detail P body =
     (let detail = ''Failed to fetch altitude data'' in
      case body of
        Inl err \<Rightarrow> detail
      | Inr errorData \<Rightarrow>
          (case optional_detail errorData of
             None \<Rightarrow> detail
           | Some v \<Rightarrow>
               if truthy v then
                 (case ToString P v of
                    Inl thrown_by_conversion \<Rightarrow>
                      (case thrown_by_conversion of
                         ErrorObject m \<Rightarrow> m
                       | NonError \<Rightarrow> ''An error occurred'')
                  | Inr m \<Rightarrow> m)
               else detail))"

text \<open>\<^verbatim>\<open>handleSubmit\<close> from the point where \<^verbatim>\<open>fetch\<close> settles to its end.  Between the
  settling of \<^verbatim>\<open>fetch\<close> and that of \<^verbatim>\<open>response.json()\<close> the function writes no state,
  so the two are one step.\<close>

definition handleSubmit_resume :: "platform \<Rightarrow> outcome \<Rightarrow> ui_state \<Rightarrow> ui_state" where
  "handleSubmit_resume P out s =
     finally_clause
       (case out of
          FetchRejected err \<Rightarrow> catch_clause err s
        | ErrorResponse body \<Rightarrow> catch_clause (ErrorObject (error_detail P body)) s
        | OkResponse body \<Rightarrow>
            (case body of
               Inl err \<Rightarrow> catch_clause err s
             | Inr result \<Rightarrow> s\<lparr>data := Some result\<rparr>))"


section \<open>The page: the form around \<^verbatim>\<open>handleSubmit\<close>\<close>

text \<open>
  \<^verbatim>\<open>handleSubmit\<close> is the \<^verbatim>\<open>onSubmit\<close> handler of the form.  The browser raises the
  submit event only when the submit button is enabled (\<^verbatim>\<open>disabled={loading}\<close>) and
  the controls satisfy their constraints: all four are \<^verbatim>\<open>required\<close>, and the two
  \<^verbatim>\<open>type="number"\<close> controls carry \<^verbatim>\<open>min="1"\<close> (both) and \<^verbatim>\<open>max="3600"\<close> (the step).
  The state cells hold what \<^verbatim>\<open>onChange\<close> delivered, that is, values the browser has
  already sanitized.

  \<open>parse_float\<close> reads a valid floating-point number of the HTML standard: an
  optional \<^verbatim>\<open>-\<close>, digits and/or a fraction, an optional exponent.
\<close>

fun read_digits :: "string \<Rightarrow> nat \<Rightarrow> nat \<Rightarrow> nat \<times> nat \<times> string" where
  "read_digits [] v k = (v, k, [])"
| "read_digits (c # cs) v k =
     (case digit_val c of
        None \<Rightarrow> (v, k, c # cs)
      | Some d \<Rightarrow> read_digits cs (10 * v + d) (Suc k))"

definition float_exponent :: "rat \<Rightarrow> string \<Rightarrow> rat option" where
  "float_exponent m s =
     (case s of
        [] \<Rightarrow> Some m
      | c # r \<Rightarrow>
          if c = CHR ''e'' \<or> c = CHR ''E'' then
            (let neg = (case r of [] \<Rightarrow> False | x # r' \<Rightarrow> x = CHR ''-'');
                 r1 = (case r of [] \<Rightarrow> r
                       | x # r' \<Rightarrow> if x = CHR ''-'' \<or> x = CHR ''+'' then r' else r)
             in case read_digits r1 0 0 of
                  (ev, ne, r2) \<Rightarrow>
                    if ne = 0 \<or> r2 \<noteq> [] then None
                    else if neg then Some (m / 10 ^ ev) else Some (m * 10 ^ ev))
          else None)"

definition float_mantissa :: "string \<Rightarrow> rat option" where
  "float_mantissa s =
     (case read_digits s 0 0 of
        (ip, ni, r1) \<Rightarrow>
          (case r1 of
             [] \<Rightarrow> if ni = 0 then None else Some (of_nat ip)
           | c # r2 \<Rightarrow>
               if c = CHR ''.'' then
                 (case read_digits r2 0 0 of
                    (fp, nf, r3) \<Rightarrow>
                      if nf = 0 then None
                      else float_exponent (of_nat ip + of_nat fp / 10 ^ nf) r3)
               else if ni = 0 then None
               else float_exponent (of_nat ip) r1))"

definition parse_float :: "string \<Rightarrow> rat option" where
  "parse_float s =
     (case s of
        [] \<Rightarrow> None
      | c # r \<Rightarrow>
          if c = CHR ''-'' then map_option uminus (float_mantissa r) else float_mantissa s)"

text \<open>A \<^verbatim>\<open>type="number"\<close> control with \<^verbatim>\<open>min\<close>, perhaps \<^verbatim>\<open>max\<close>, and the default step 1
  (counted from \<^verbatim>\<open>min\<close>): no range underflow, no range overflow, no step mismatch.\<close>

definition number_input_valid :: "rat \<Rightarrow> rat option \<Rightarrow> string \<Rightarrow> bool" where
  "number_input_valid lo hi v =
     (case parse_float v of
        None \<Rightarrow> False
      | Some x \<Rightarrow>
          lo \<le> x \<and> (case hi of None \<Rightarrow> True | Some h \<Rightarrow> x \<le> h)
          \<and> of_int \<lfloor>x - lo\<rfloor> = x - lo)"

definition form_valid :: "ui_state \<Rightarrow> bool" where
  "form_valid s \<longleftrightarrow>
     noradId s \<noteq> [] \<and> number_input_valid 1 None (noradId s)
     \<and> stepSeconds s \<noteq> [] \<and> number_input_valid 1 (Some 3600) (stepSeconds s)
     \<and> startTime s \<noteq> [] \<and> endTime s \<noteq> []"

text \<open>The page with the requests it has in flight (their URLs, oldest first).\<close>

record system =
  ui :: ui_state
  inflight :: "string list"

definition initial_system :: system where
  "initial_system = \<lparr>ui = initial_ui, inflight = []\<rparr>"

text \<open>What can happen to the page: an input changes (\<^verbatim>\<open>onChange\<close>; the effect run on
  mount is two such writes), the user submits the form, or the request at some position
  of the in-flight list settles.\<close>

datatype event =
    SetNoradId string
  | SetStartTime string
  | SetEndTime string
  | SetStepSeconds string
  | SubmitForm
  | Settle nat outcome

definition issue :: "ui_state \<times> string option \<Rightarrow> string list \<Rightarrow> system" where
  "issue r reqs =
     \<lparr>ui = fst r, inflight = reqs @ (case snd r of None \<Rightarrow> [] | Some url \<Rightarrow> [url])\<rparr>"

definition submit_form :: "platform \<Rightarrow> system \<Rightarrow> system" where
  "submit_form P w =
     (if loading (ui w) then w
      else if form_valid (ui w) then issue (handleSubmit_start P (ui w)) (inflight w)
      else w)"

definition settle :: "platform \<Rightarrow> nat \<Rightarrow> outcome \<Rightarrow> system \<Rightarrow> system" where
  "settle P i out w =
     (if i < length (inflight w) then
        \<lparr>ui = handleSubmit_resume P out (ui w),
         inflight = take i (inflight w) @ drop (Suc i) (inflight w)\<rparr>
      else w)"

fun step :: "platform \<Rightarrow> system \<Rightarrow> event \<Rightarrow> system" where
  "step P w (SetNoradId v) = w\<lparr>ui := (ui w)\<lparr>noradId := v\<rparr>\<rparr>"
| "step P w (SetStartTime v) = w\<lparr>ui := (ui w)\<lparr>startTime := v\<rparr>\<rparr>"
| "step P w (SetEndTime v) = w\<lparr>ui := (ui w)\<lparr>endTime := v\<rparr>\<rparr>"
| "step P w (SetStepSeconds v) = w\<lparr>ui := (ui w)\<lparr>stepSeconds := v\<rparr>\<rparr>"
| "step P w SubmitForm = submit_form P w"
| "step P w (Settle i out) = settle P i out w"

definition run :: "platform \<Rightarrow> event list \<Rightarrow> system" where
  "run P evs = foldl (step P) initial_system evs"

text \<open>The four lifecycle variants of the specification, read off the three cells
  \<^verbatim>\<open>loading\<close>, \<^verbatim>\<open>error\<close> and \<^verbatim>\<open>data\<close>; \<open>None\<close> when the cells fit no variant.\<close>

datatype LifecycleState = Idle | Pending | Succeeded AltitudeResponse | Failed string

definition lifecycle_view :: "ui_state \<Rightarrow> LifecycleState option" where
  "lifecycle_view s =
     (case data s of
        None \<Rightarrow>
          (case error s of
             None \<Rightarrow> if loading s then Some Pending else Some Idle
           | Some m \<Rightarrow> if loading s then None else Some (Failed m))
      | Some r \<Rightarrow>
          (case error s of
             None \<Rightarrow> if loading s then None else Some (Succeeded r)
           | Some m \<Rightarrow> None))"

section \<open>The page: the statistics card\<close>

text \<open>Arithmetic of numbers, with the non-finite cases of IEEE 754.\<close>

fun js_lt :: "jsnum \<Rightarrow> jsnum \<Rightarrow> bool" where
  "js_lt NaN y = False"
| "js_lt x NaN = False"
| "js_lt PosInfinity y = False"
| "js_lt x NegInfinity = False"
| "js_lt NegInfinity y = True"
| "js_lt x PosInfinity = True"
| "js_lt (Fin a) (Fin b) = (a < b)"

fun js_add :: "jsnum \<Rightarrow> jsnum \<Rightarrow> jsnum" where
  "js_add NaN y = NaN"
| "js_add x NaN = NaN"
| "js_add PosInfinity NegInfinity = NaN"
| "js_add NegInfinity PosInfinity = NaN"
| "js_add PosInfinity y = PosInfinity"
| "js_add NegInfinity y = NegInfinity"
| "js_add x PosInfinity = PosInfinity"
| "js_add x NegInfinity = NegInfinity"
| "js_add (Fin a) (Fin b) = Fin (a + b)"

fun js_neg :: "jsnum \<Rightarrow> jsnum" where
  "js_neg NaN = NaN"
| "js_neg PosInfinity = NegInfinity"
| "js_neg NegInfinity = PosInfinity"
| "js_neg (Fin a) = Fin (- a)"

definition js_sub :: "jsnum \<Rightarrow> jsnum \<Rightarrow> jsnum" where
  "js_sub x y = js_add x (js_neg y)"

text \<open>Division by a count: the divisor is a non-negative integer (\<^verbatim>\<open>+0\<close> when zero).\<close>

fun js_div_count :: "jsnum \<Rightarrow> nat \<Rightarrow> jsnum" where
  "js_div_count NaN n = NaN"
| "js_div_count PosInfinity n = PosInfinity"
| "js_div_count NegInfinity n = NegInfinity"
| "js_div_count (Fin a) n =
     (if n = 0 then (if a = 0 then NaN else if 0 < a then PosInfinity else NegInfinity)
      else Fin (a / of_nat n))"

text \<open>\<^verbatim>\<open>Math.min(...xs)\<close> and \<^verbatim>\<open>Math.max(...xs)\<close>.  The call spreads the array into
  arguments: with more elements than the engine lets a call take it throws a
  \<^verbatim>\<open>RangeError\<close>.  Otherwise one pass from \<^verbatim>\<open>+Infinity\<close> (\<^verbatim>\<open>-Infinity\<close>), \<^verbatim>\<open>NaN\<close> as soon
  as an argument is \<^verbatim>\<open>NaN\<close>.\<close>

definition Math_min :: "platform \<Rightarrow> jsnum list \<Rightarrow> thrown + jsnum" where
  "Math_min P xs =
     (if argument_limit P < length xs then Inl (ErrorObject (RangeError_message P))
      else Inr (foldl (\<lambda>lowest x. if lowest = NaN \<or> x = NaN then NaN
                         else if js_lt x lowest then x else lowest) PosInfinity xs))"

definition Math_max :: "platform \<Rightarrow> jsnum list \<Rightarrow> thrown + jsnum" where
  "Math_max P xs =
     (if argument_limit P < length xs then Inl (ErrorObject (RangeError_message P))
      else Inr (foldl (\<lambda>highest x. if highest = NaN \<or> x = NaN then NaN
                         else if js_lt highest x then x else highest) NegInfinity xs))"

text \<open>The four figures of the card, as the JSX computes them from \<^verbatim>\<open>data.points\<close>.
  In the range the maximum is computed first.\<close>

definition minAltitude :: "platform \<Rightarrow> AltitudeResponse \<Rightarrow> thrown + jsnum" where
  "minAltitude P d = Math_min P (map alt_km (points d))"

definition maxAltitude :: "platform \<Rightarrow> AltitudeResponse \<Rightarrow> thrown + jsnum" where
  "maxAltitude P d = Math_max P (map alt_km (points d))"

definition avgAltitude :: "AltitudeResponse \<Rightarrow> jsnum" where
  "avgAltitude d =
     js_div_count (foldl (\<lambda>sum p. js_add sum (alt_km p)) (Fin 0) (points d))
       (length (points d))"

definition altitudeRange :: "platform \<Rightarrow> AltitudeResponse \<Rightarrow> thrown + jsnum" where
  "altitudeRange P d =
     (case Math_max P (map alt_km (points d)) of
        Inl e \<Rightarrow> Inl e
      | Inr highest \<Rightarrow>
          (case Math_min P (map alt_km (points d)) of
             Inl e \<Rightarrow> Inl e
           | Inr lowest \<Rightarrow> Inr (js_sub highest lowest)))"

fun nat_string :: "nat \<Rightarrow> string" where
  "nat_string n = (if n < 10 then [digit_char n] else nat_string (n div 10) @ [digit_char n])"

declare nat_string.simps [simp del]

text \<open>\<^verbatim>\<open>Number.prototype.toFixed(2)\<close>: a non-finite number and one of magnitude 1e21 or
  more print as \<^verbatim>\<open>Number::toString\<close> prints them; otherwise two decimals, rounding
  half away from zero.\<close>

definition toFixed2 :: "(jsnum \<Rightarrow> string) \<Rightarrow> jsnum \<Rightarrow> string" where
  "toFixed2 ns x =
     (case x of
        NaN \<Rightarrow> ''NaN''
      | PosInfinity \<Rightarrow> ''Infinity''
      | NegInfinity \<Rightarrow> ''-Infinity''
      | Fin q \<Rightarrow>
          if 10 ^ 21 \<le> \<bar>q\<bar> then ns x
          else (let n = nat \<lfloor>\<bar>q\<bar> * 100 + 1 / 2\<rfloor>
                in (if q < 0 then ''-'' else []) @ nat_string (n div 100) @ ''.''
                     @ two_digits (n mod 100)))"

text \<open>The card is rendered exactly when \<^verbatim>\<open>data\<close> is set (\<^verbatim>\<open>{data && ...}\<close>); its four
  texts are the minimum, the maximum, the mean and the range, computed in this order.
  When one of the computations throws, rendering stops with what was thrown and no
  text is shown.\<close>

definition statistics_card ::
  "platform \<Rightarrow> ui_state \<Rightarrow> (thrown + string \<times> string \<times> string \<times> string) option" where
  "statistics_card P s =
     (case data s of
        None \<Rightarrow> None
      | Some d \<Rightarrow>
          Some (case minAltitude P d of
                  Inl e \<Rightarrow> Inl e
                | Inr lowest \<Rightarrow>
                    (case maxAltitude P d of
                       Inl e \<Rightarrow> Inl e
                     | Inr highest \<Rightarrow>
                         (case altitudeRange P d of
                            Inl e \<Rightarrow> Inl e
                          | Inr width \<Rightarrow>
                              Inr (toFixed2 (Number_toString P) lowest,
                                   toFixed2 (Number_toString P) highest,
                                   toFixed2 (Number_toString P) (avgAltitude d),
                                   toFixed2 (Number_toString P) width)))))"

section \<open>Local date-time strings\<close>

text \<open>
  The shape \<^verbatim>\<open>YYYY-MM-DDTHH:mm:ss\<close> in which the page holds its two timestamps (the
  effect run on mount writes them with \<^verbatim>\<open>format(now, "yyyy-MM-dd'T'HH:mm:ss")\<close>), built
  from its fields.  With a year outside 0..9999 the same function writes the expanded
  year of \<^verbatim>\<open>toISOString\<close>.
\<close>

definition datetime_string :: "int \<Rightarrow> nat \<Rightarrow> nat \<Rightarrow> nat \<Rightarrow> nat \<Rightarrow> nat \<Rightarrow> string" where
  "datetime_string y mo d h mi s =
     year_string y @ ''-'' @ two_digits mo @ ''-'' @ two_digits d @ ''T'' @ two_digits h
       @ '':'' @ two_digits mi @ '':'' @ two_digits s"

definition DaysInMonth :: "int \<Rightarrow> nat \<Rightarrow> nat" where
  "DaysInMonth y mo =
     (if mo = 2 then (if DaysInYear y = 366 then 29 else 28)
      else if mo = 4 \<or> mo = 6 \<or> mo = 9 \<or> mo = 11 then 30
      else 31)"

text \<open>The fields of a real local date and time with a four-digit year.\<close>

definition valid_local_datetime :: "nat \<Rightarrow> nat \<Rightarrow> nat \<Rightarrow> nat \<Rightarrow> nat \<Rightarrow> nat \<Rightarrow> bool" where
  "valid_local_datetime y mo d h mi s \<longleftrightarrow>
     y \<le> 9999 \<and> 1 \<le> mo \<and> mo \<le> 12 \<and> 1 \<le> d \<and> d \<le> DaysInMonth (int y) mo
     \<and> h \<le> 23 \<and> mi \<le> 59 \<and> s \<le> 59"

text \<open>The time value of these fields read as they stand, before the offset of the
  zone is taken off.\<close>

definition local_time_value :: "nat \<Rightarrow> nat \<Rightarrow> nat \<Rightarrow> nat \<Rightarrow> nat \<Rightarrow> nat \<Rightarrow> int" where
  "local_time_value y mo d h mi s =
     MakeDate (MakeDay (int y) (int mo - 1) (int d)) (MakeTime (int h) (int mi) (int s) 0)"

section \<open>An example host\<close>

text \<open>A host for the examples below: the zone is UTC+09:00 all year (the zone of the
  example in the comment of \<^verbatim>\<open>toUTCISOString\<close>), dates are parsed in the Date Time String
  Format only, no backend URL is configured, a call spreads at most 65535 arguments,
  and the two messages are those of an engine.  \<open>integer_toString\<close> is
  \<^verbatim>\<open>Number::toString\<close> on the integers below 1e21; the examples print no other
  number.\<close>

definition integer_toString :: "jsnum \<Rightarrow> string" where
  "integer_toString x =
     (case x of
        NaN \<Rightarrow> ''NaN''
      | PosInfinity \<Rightarrow> ''Infinity''
      | NegInfinity \<Rightarrow> ''-Infinity''
      | Fin q \<Rightarrow> (if q < 0 then ''-'' else []) @ nat_string (nat \<lfloor>\<bar>q\<bar>\<rfloor>))"

definition jst_host :: platform where
  "jst_host =
     \<lparr>Date_parse = Date_parse_iso (\<lambda>tv. 32400000), Number_toString = integer_toString,
      NEXT_PUBLIC_BACKEND_URL = None, argument_limit = 65535,
      RangeError_message = ''Maximum call stack size exceeded'',
      TypeError_message = ''Cannot convert object to primitive value''\<rparr>"

text \<open>A response body with the given altitudes.\<close>

definition sample_response :: "jsnum list \<Rightarrow> AltitudeResponse" where
  "sample_response alts =
     \<lparr>norad_id = Fin 25544, start = ''2026-01-01T00:00:00Z'', end_field = ''2026-01-01T06:00:00Z'',
      step_seconds = Fin 60,
      points = map (\<lambda>a. \<lparr>t_field = ''2026-01-01T00:00:00Z'', alt_km = a\<rparr>) alts,
      meta = \<lparr>tle_source = ''celestrak'', tle_epoch = ''2025-12-31T12:00:00Z'',
               earth_radius_km = Fin 6378\<rparr>\<rparr>"

text \<open>What the form maintains: either nothing is in flight and the cells
  are at rest, or exactly one request is in flight and the cells are those that
  \<^verbatim>\<open>handleSubmit\<close> set before \<^verbatim>\<open>fetch\<close>.\<close>

definition at_rest_or_pending :: "system \<Rightarrow> bool" where
  "at_rest_or_pending w \<longleftrightarrow>
     (inflight w = [] \<and> loading (ui w) = False
        \<and> (error (ui w) = None \<or> data (ui w) = None))
     \<or> (length (inflight w) = 1 \<and> loading (ui w) = True
        \<and> error (ui w) = None \<and> data (ui w) = None)"

text \<open>The page after mount, with a six-hour window in the inputs.\<close>

definition example_ui :: ui_state where
  "example_ui =
     initial_ui\<lparr>startTime := ''2026-01-01T06:34:56'', endTime := ''2026-01-01T12:34:56''\<rparr>"

definition example_events :: "event list" where
  "example_events =
     [SetStartTime ''2026-01-01T06:34:56'', SetEndTime ''2026-01-01T12:34:56'', SubmitForm]"

text \<open>The bytes a serialized query may contain: those the serializer leaves as they
  are, and \<^verbatim>\<open>+\<close>, \<^verbatim>\<open>%\<close>, \<^verbatim>\<open>&\<close> and \<^verbatim>\<open>=\<close>.\<close>

definition query_char :: "char \<Rightarrow> bool" where
  "query_char c =
     (let n = (of_char c :: nat) in
      n = 37 \<or> n = 38 \<or> n = 43 \<or> n = 61 \<or> n = 42 \<or> n = 45 \<or> n = 46 \<or> n = 95
      \<or> (48 \<le> n \<and> n \<le> 57) \<or> (65 \<le> n \<and> n \<le> 90) \<or> (97 \<le> n \<and> n \<le> 122))"

text \<open>The same inputs with the step typed in, then a submission.\<close>

definition example_events_with_step :: "string \<Rightarrow> event list" where
  "example_events_with_step st =
     [SetStartTime ''2026-01-01T06:34:56'', SetEndTime ''2026-01-01T12:34:56'',
      SetStepSeconds st, SubmitForm]"

section \<open>Properties\<close>

subsection \<open>The example host\<close>

lemma jst_host_fields:
  "Date_parse jst_host = Date_parse_iso (\<lambda>tv. 32400000)"
  "NEXT_PUBLIC_BACKEND_URL jst_host = None"
  "argument_limit jst_host = 65535"
  by (simp_all add: jst_host_def)

lemma example_dates_read:
  "Date_parse_iso (\<lambda>tv. 32400000) ''tomorrow'' = None"
  "Date_parse_iso (\<lambda>tv. 32400000) ''2026-01-01T06:34:56'' \<noteq> None"
  "Date_parse_iso (\<lambda>tv. 32400000) ''2026-01-01T12:34:56'' \<noteq> None"
  by code_simp+

subsection \<open>The clauses of \<^verbatim>\<open>handleSubmit\<close>\<close>

lemma finally_clause_simps [simp]:
  "loading (finally_clause s) = False"
  "error (finally_clause s) = error s"
  "data (finally_clause s) = data s"
  by (simp_all add: finally_clause_def)

lemma catch_clause_simps [simp]:
  "loading (catch_clause e s) = loading s"
  "data (catch_clause e s) = data s"
  "error (catch_clause (ErrorObject m) s) = Some m"
  "error (catch_clause NonError s) = Some ''An error occurred''"
  by (simp_all add: catch_clause_def)

lemma toUTCISOString_message:
  "toUTCISOString parse x = Inl e \<Longrightarrow> e = ErrorObject ''Invalid date/time format''"
  by (auto simp: toUTCISOString_def split: option.splits)

subsection \<open>Resetting the cells\<close>

text \<open>
  Claim C10.  However a request ends (the fetch rejects, the response is not ok, its
  body does not parse, or it succeeds), the continuation of \<^verbatim>\<open>handleSubmit\<close> leaves
  \<^verbatim>\<open>loading\<close> false, so the cells never read as Pending after a resolution.  And the
  synchronous part of every submission clears the previous result and the previous
  error: when a request has been issued both are unset and \<^verbatim>\<open>loading\<close> is true; when
  none has, the only error is the fresh validation message and \<^verbatim>\<open>loading\<close> is
  false again.
\<close>

theorem loading_reset_on_every_resolution:
  "loading (handleSubmit_resume P out s) = False
   \<and> lifecycle_view (handleSubmit_resume P out s) \<noteq> Some Pending
   \<and> data (fst (handleSubmit_start P s)) = None
   \<and> error (fst (handleSubmit_start P s)) =
       (if snd (handleSubmit_start P s) = None then Some ''Invalid date/time format'' else None)
   \<and> loading (fst (handleSubmit_start P s)) = (snd (handleSubmit_start P s) \<noteq> None)"
proof -
  have a: "loading (handleSubmit_resume P out s) = False"
    by (simp add: handleSubmit_resume_def)
  then have b: "lifecycle_view (handleSubmit_resume P out s) \<noteq> Some Pending"
    by (auto simp: lifecycle_view_def split: option.splits if_splits)
  have c: "data (fst (handleSubmit_start P s)) = None
   \<and> error (fst (handleSubmit_start P s)) =
       (if snd (handleSubmit_start P s) = None then Some ''Invalid date/time format'' else None)
   \<and> loading (fst (handleSubmit_start P s)) = (snd (handleSubmit_start P s) \<noteq> None)"
    by (auto simp: handleSubmit_start_def Let_def split: sum.splits dest!: toUTCISOString_message)
  from a b c show ?thesis by blast
qed

subsection \<open>Timestamps that do not parse\<close>

text \<open>Two strings that name no day of the calendar, as the example host reads
  them.\<close>

lemma impossible_dates_normalized:
  "toUTCISOString (Date_parse_iso (\<lambda>tv. 32400000)) ''2026-02-30T00:00:00'' =
     Inr ''2026-03-01T15:00:00Z''"
  "toUTCISOString (Date_parse_iso (\<lambda>tv. 32400000)) ''2026-04-31T00:00:00'' =
     Inr ''2026-04-30T15:00:00Z''"
  by code_simp+

lemma impossible_dates_written:
  "datetime_string 2026 2 30 0 0 0 = ''2026-02-30T00:00:00''"
  "datetime_string 2026 4 31 0 0 0 = ''2026-04-31T00:00:00''"
  by code_simp+

lemma impossible_dates_url:
  "request_url None ''25544'' ''2026-03-01T15:00:00Z'' ''2026-04-30T15:00:00Z'' ''60'' =
     ''http://127.0.0.1:8000/altitude?n=25544&start=2026-03-01T15%3A00%3A00Z''
       @ ''&end=2026-04-30T15%3A00%3A00Z&step_seconds=60''"
  by code_simp

text \<open>
  Claim C4, as stated, fails.  The test of \<^verbatim>\<open>toUTCISOString\<close> is that of the host's
  \<^verbatim>\<open>Date\<close>, and a host may accept a string that names no real calendar date.  On the
  example host, which like V8 reads any day of the month from 1 to 31, a start of
  30 February and an end of 31 April are taken for 2 March and 1 May: both are
  normalized, the request is issued, and the cells read Pending.
\<close>

theorem impossible_date_counterexample:
  "\<not> valid_local_datetime 2026 2 30 0 0 0 \<and> \<not> valid_local_datetime 2026 4 31 0 0 0
   \<and> datetime_string 2026 2 30 0 0 0 = ''2026-02-30T00:00:00''
   \<and> datetime_string 2026 4 31 0 0 0 = ''2026-04-31T00:00:00''
   \<and> toUTCISOString (Date_parse jst_host) ''2026-02-30T00:00:00'' = Inr ''2026-03-01T15:00:00Z''
   \<and> toUTCISOString (Date_parse jst_host) ''2026-04-31T00:00:00'' = Inr ''2026-04-30T15:00:00Z''
   \<and> snd (handleSubmit_start jst_host
        (initial_ui\<lparr>startTime := ''2026-02-30T00:00:00'', endTime := ''2026-04-31T00:00:00''\<rparr>)) =
      Some (''http://127.0.0.1:8000/altitude?n=25544&start=2026-03-01T15%3A00%3A00Z''
            @ ''&end=2026-04-30T15%3A00%3A00Z&step_seconds=60'')
   \<and> lifecycle_view (fst (handleSubmit_start jst_host
        (initial_ui\<lparr>startTime := ''2026-02-30T00:00:00'', endTime := ''2026-04-31T00:00:00''\<rparr>))) =
      Some Pending"
proof -
  have v: "\<not> valid_local_datetime 2026 2 30 0 0 0" "\<not> valid_local_datetime 2026 4 31 0 0 0"
    by (simp_all add: valid_local_datetime_def DaysInMonth_def DaysInYear_def)
  have h: "handleSubmit_start jst_host
        (initial_ui\<lparr>startTime := ''2026-02-30T00:00:00'', endTime := ''2026-04-31T00:00:00''\<rparr>) =
      (initial_ui\<lparr>startTime := ''2026-02-30T00:00:00'', endTime := ''2026-04-31T00:00:00'',
         loading := True, error := None, data := None\<rparr>,
       Some (request_url None ''25544'' ''2026-03-01T15:00:00Z'' ''2026-04-30T15:00:00Z'' ''60''))"
    by (simp add: handleSubmit_start_def Let_def jst_host_fields impossible_dates_normalized
        initial_ui_def)
  have p: "lifecycle_view (fst (handleSubmit_start jst_host
        (initial_ui\<lparr>startTime := ''2026-02-30T00:00:00'', endTime := ''2026-04-31T00:00:00''\<rparr>))) =
      Some Pending"
    unfolding h by (simp add: lifecycle_view_def)
  have u: "snd (handleSubmit_start jst_host
        (initial_ui\<lparr>startTime := ''2026-02-30T00:00:00'', endTime := ''2026-04-31T00:00:00''\<rparr>)) =
      Some (''http://127.0.0.1:8000/altitude?n=25544&start=2026-03-01T15%3A00%3A00Z''
            @ ''&end=2026-04-30T15%3A00%3A00Z&step_seconds=60'')"
    unfolding h by (simp only: snd_conv impossible_dates_url)
  show ?thesis
    by (intro conjI v impossible_dates_written u p)
      (simp_all only: jst_host_fields impossible_dates_normalized)
qed

text \<open>
  Claim C4, amended.  When the host's \<^verbatim>\<open>Date\<close> rejects the start or the end timestamp
  (\<^verbatim>\<open>new Date(s)\<close> is an invalid date), \<^verbatim>\<open>handleSubmit\<close> ends in its synchronous part:
  \<^verbatim>\<open>fetch\<close> is not called (no URL is issued), and the cells read Failed with the
  message of \<^verbatim>\<open>toUTCISOString\<close>.
\<close>

theorem invalid_timestamp_fails_without_request:
  assumes "Date_parse P (startTime s) = None \<or> Date_parse P (endTime s) = None"
  shows "handleSubmit_start P s =
           (s\<lparr>loading := False, error := Some ''Invalid date/time format'', data := None\<rparr>, None)
         \<and> lifecycle_view (fst (handleSubmit_start P s)) = Some (Failed ''Invalid date/time format'')"
  using assms
  by (auto simp: handleSubmit_start_def toUTCISOString_def Let_def finally_clause_def
      catch_clause_def lifecycle_view_def split: option.splits)

theorem invalid_timestamp_witness:
  "handleSubmit_start jst_host
     (initial_ui\<lparr>startTime := ''2026-01-01T12:34:56'', endTime := ''tomorrow''\<rparr>) =
     (initial_ui\<lparr>startTime := ''2026-01-01T12:34:56'', endTime := ''tomorrow'',
        loading := False, error := Some ''Invalid date/time format'', data := None\<rparr>, None)
   \<and> lifecycle_view (fst (handleSubmit_start jst_host
         (initial_ui\<lparr>startTime := ''2026-01-01T12:34:56'', endTime := ''tomorrow''\<rparr>))) =
       Some (Failed ''Invalid date/time format'')"
proof -
  have h: "Date_parse jst_host
        (startTime (initial_ui\<lparr>startTime := ''2026-01-01T12:34:56'', endTime := ''tomorrow''\<rparr>)) = None
     \<or> Date_parse jst_host
        (endTime (initial_ui\<lparr>startTime := ''2026-01-01T12:34:56'', endTime := ''tomorrow''\<rparr>)) = None"
    by (simp add: jst_host_fields example_dates_read)
  show ?thesis
    by (rule invalid_timestamp_fails_without_request [OF h])
qed

subsection \<open>The message of a response that is not ok\<close>

lemma error_of_non_ok:
  "error (handleSubmit_resume P (ErrorResponse body) s) = Some (error_detail P body)"
  "loading (handleSubmit_resume P (ErrorResponse body) s) = False"
  "data (handleSubmit_resume P (ErrorResponse body) s) = data s"
  by (simp_all add: handleSubmit_resume_def)

text \<open>
  Claim C8, as stated, fails: a body whose \<^verbatim>\<open>detail\<close> is the empty string has a
  \<^verbatim>\<open>detail\<close> field, and the message is the fallback, not that field
  (\<^verbatim>\<open>errorData?.detail || detail\<close> takes the right operand for every falsy left one).
\<close>

theorem empty_detail_counterexample:
  "optional_detail (JObj [(''detail'', JStr [])]) = Some (JStr [])
   \<and> error (handleSubmit_resume jst_host
         (ErrorResponse (Inr (JObj [(''detail'', JStr [])]))) initial_ui) =
       Some ''Failed to fetch altitude data''"
  by (simp add: error_of_non_ok error_detail_def)

text \<open>A \<^verbatim>\<open>detail\<close> that is an object with a member \<^verbatim>\<open>toString\<close> cannot be converted:
  the message shown is the one of the \<^verbatim>\<open>TypeError\<close>.\<close>

lemma detail_without_primitive_value:
  "error (handleSubmit_resume P
      (ErrorResponse (Inr (JObj [(''detail'', JObj [(''toString'', JStr ''x'')])]))) s) =
     Some (TypeError_message P)"
  by (simp add: error_of_non_ok error_detail_def)

text \<open>
  Claim C8, amended.  For a response that is not ok the message is the body's
  \<^verbatim>\<open>detail\<close> when the body parses as JSON and that field is a non-empty string, and it
  is the fallback \<^verbatim>\<open>Failed to fetch altitude data\<close> when the body does not parse, has no
  \<^verbatim>\<open>detail\<close>, or its \<^verbatim>\<open>detail\<close> is falsy (the empty string, \<^verbatim>\<open>null\<close>, \<^verbatim>\<open>false\<close>, 0).
\<close>

theorem non_ok_response_message:
  "(optional_detail j = Some (JStr d) \<and> d \<noteq> [] \<longrightarrow>
      error (handleSubmit_resume P (ErrorResponse (Inr j)) s) = Some d)
   \<and> (optional_detail j = None \<or> optional_detail j = Some (JStr [])
        \<or> optional_detail j = Some JNull \<or> optional_detail j = Some (JBool False)
        \<or> optional_detail j = Some (JNum (Fin 0)) \<longrightarrow>
      error (handleSubmit_resume P (ErrorResponse (Inr j)) s) =
        Some ''Failed to fetch altitude data'')
   \<and> error (handleSubmit_resume P (ErrorResponse (Inl e)) s) =
        Some ''Failed to fetch altitude data''"
  by (auto simp: error_of_non_ok error_detail_def)

theorem non_ok_response_message_witness:
  "error (handleSubmit_resume jst_host
      (ErrorResponse (Inr (JObj [(''detail'', JStr ''No TLE found for NORAD ID 99999'')])))
      initial_ui) = Some ''No TLE found for NORAD ID 99999''
   \<and> error (handleSubmit_resume jst_host
      (ErrorResponse (Inr (JObj [(''message'', JStr ''x'')]))) initial_ui) =
     Some ''Failed to fetch altitude data''"
  using non_ok_response_message [where j = "JObj [(''detail'', JStr ''No TLE found for NORAD ID 99999'')]"
      and d = "''No TLE found for NORAD ID 99999''" and P = jst_host and s = initial_ui]
    non_ok_response_message [where j = "JObj [(''message'', JStr ''x'')]" and d = "[]"
      and P = jst_host and s = initial_ui]
  by simp

subsection \<open>The statistics card\<close>

lemma char_of_digits:
  "char_of (48::nat) = CHR ''0''" "char_of (49::nat) = CHR ''1''" "char_of (50::nat) = CHR ''2''"
  "char_of (51::nat) = CHR ''3''" "char_of (52::nat) = CHR ''4''" "char_of (53::nat) = CHR ''5''"
  "char_of (54::nat) = CHR ''6''" "char_of (55::nat) = CHR ''7''" "char_of (56::nat) = CHR ''8''"
  "char_of (57::nat) = CHR ''9''"
  by code_simp+

lemma toFixed2_of_nat:
  assumes "k < 10 ^ 21"
  shows "toFixed2 ns (Fin (of_nat k)) = nat_string k @ ''.00''"
proof -
  have h: "\<lfloor>(1::rat) / 2\<rfloor> = 0"
    by (rule floor_unique) simp_all
  have "(of_nat k :: rat) * 100 = of_int (int k * 100)" by simp
  then have w: "\<lfloor>(of_nat k :: rat) * 100\<rfloor> = int k * 100"
    by (simp only: floor_of_int)
  have "\<not> (10 ^ 21 \<le> \<bar>of_nat k :: rat\<bar>)"
    using assms by (simp add: not_le)
  then show ?thesis
    unfolding toFixed2_def
    by (simp add: h w Let_def two_digits_def digit_char_def char_of_digits nat_mult_distrib)
qed

lemma foldl_alt_km:
  "foldl (\<lambda>sum p. js_add sum (alt_km p)) a ps = foldl js_add a (map alt_km ps)"
  by (induction ps arbitrary: a) simp_all

text \<open>The spread of a series longer than the host's limit raises, and no card is
  computed.\<close>

lemma statistics_card_of_long_series:
  assumes "argument_limit P < length (points d)"
  shows "statistics_card P (s\<lparr>data := Some d\<rparr>) = Some (Inl (ErrorObject (RangeError_message P)))"
  using assms by (simp add: statistics_card_def minAltitude_def Math_min_def)

text \<open>
  Claim C6.  For a response whose altitudes are 400, 420 and 410 (whatever its
  timestamps), on a host whose calls take three arguments, the card computes minimum
  400, maximum 420, mean 410 and range 20, and shows them with two decimals.  All
  intermediate values are small integers, so the rational model and double arithmetic
  agree.
\<close>

theorem statistics_of_three_samples:
  assumes "map alt_km (points d) = [Fin 400, Fin 420, Fin 410]"
    and "3 \<le> argument_limit P"
  shows "minAltitude P d = Inr (Fin 400) \<and> maxAltitude P d = Inr (Fin 420)
         \<and> avgAltitude d = Fin 410 \<and> altitudeRange P d = Inr (Fin 20)
         \<and> statistics_card P (s\<lparr>data := Some d\<rparr>) =
             Some (Inr (''400.00'', ''420.00'', ''410.00'', ''20.00''))"
proof -
  have len: "length (points d) = 3"
    using arg_cong [OF assms(1), of length] by simp
  have lim: "\<not> argument_limit P < Suc (Suc (Suc 0))"
    using assms(2) by (simp add: eval_nat_numeral)
  have mn: "minAltitude P d = Inr (Fin 400)"
    by (simp add: minAltitude_def Math_min_def assms(1) lim)
  have mx: "maxAltitude P d = Inr (Fin 420)"
    by (simp add: maxAltitude_def Math_max_def assms(1) lim)
  have av: "avgAltitude d = Fin 410"
    by (simp add: avgAltitude_def foldl_alt_km assms(1) len)
  have rg: "altitudeRange P d = Inr (Fin 20)"
    by (simp add: altitudeRange_def Math_max_def Math_min_def js_sub_def assms(1) lim)
  have f: "toFixed2 ns (Fin 400) = ''400.00''" "toFixed2 ns (Fin 420) = ''420.00''"
    "toFixed2 ns (Fin 410) = ''410.00''" "toFixed2 ns (Fin 20) = ''20.00''" for ns
    using toFixed2_of_nat [of 400 ns] toFixed2_of_nat [of 420 ns] toFixed2_of_nat [of 410 ns]
      toFixed2_of_nat [of 20 ns]
    by (simp_all add: nat_string.simps digit_char_def char_of_digits)
  show ?thesis
    by (simp add: statistics_card_def mn mx av rg f)
qed

theorem statistics_of_three_samples_witness:
  "minAltitude jst_host (sample_response [Fin 400, Fin 420, Fin 410]) = Inr (Fin 400)
   \<and> maxAltitude jst_host (sample_response [Fin 400, Fin 420, Fin 410]) = Inr (Fin 420)
   \<and> avgAltitude (sample_response [Fin 400, Fin 420, Fin 410]) = Fin 410
   \<and> altitudeRange jst_host (sample_response [Fin 400, Fin 420, Fin 410]) = Inr (Fin 20)
   \<and> statistics_card jst_host
        (initial_ui\<lparr>data := Some (sample_response [Fin 400, Fin 420, Fin 410])\<rparr>) =
       Some (Inr (''400.00'', ''420.00'', ''410.00'', ''20.00''))"
proof -
  have h: "map alt_km (points (sample_response [Fin 400, Fin 420, Fin 410])) =
      [Fin 400, Fin 420, Fin 410]"
    by (simp add: sample_response_def)
  have l: "3 \<le> argument_limit jst_host"
    by (simp add: jst_host_fields)
  show ?thesis
    by (rule statistics_of_three_samples [OF h l])
qed

text \<open>
  Claim C2, as stated, fails: a successful response with no points raises nothing,
  and the card shows \<^verbatim>\<open>Infinity\<close>, \<^verbatim>\<open>-Infinity\<close>, \<^verbatim>\<open>NaN\<close> and \<^verbatim>\<open>-Infinity\<close>.
\<close>

theorem empty_series_counterexample:
  "statistics_card jst_host
     (handleSubmit_resume jst_host (OkResponse (Inr (sample_response [])))
        (initial_ui\<lparr>loading := True\<rparr>)) =
   Some (Inr (''Infinity'', ''-Infinity'', ''NaN'', ''-Infinity''))"
  by (simp add: statistics_card_def handleSubmit_resume_def finally_clause_def
      sample_response_def minAltitude_def maxAltitude_def avgAltitude_def altitudeRange_def
      Math_min_def Math_max_def js_sub_def toFixed2_def)

text \<open>
  Claim C2, amended.  The page has no \<^verbatim>\<open>EmptySeries\<close> error.  For a response without
  points nothing is raised: the minimum is \<^verbatim>\<open>Infinity\<close>, the maximum \<^verbatim>\<open>-Infinity\<close>, the
  mean \<^verbatim>\<open>NaN\<close> and the range \<^verbatim>\<open>-Infinity\<close>, and the card shows these four texts.
\<close>

theorem statistics_of_empty_series:
  assumes "points d = []"
  shows "minAltitude P d = Inr PosInfinity \<and> maxAltitude P d = Inr NegInfinity
       \<and> avgAltitude d = NaN \<and> altitudeRange P d = Inr NegInfinity
       \<and> statistics_card P (s\<lparr>data := Some d\<rparr>) =
           Some (Inr (''Infinity'', ''-Infinity'', ''NaN'', ''-Infinity''))"
  using assms
  by (simp add: statistics_card_def minAltitude_def maxAltitude_def avgAltitude_def
      altitudeRange_def Math_min_def Math_max_def js_sub_def toFixed2_def)

theorem statistics_of_empty_series_witness:
  "minAltitude jst_host (sample_response []) = Inr PosInfinity
   \<and> maxAltitude jst_host (sample_response []) = Inr NegInfinity
   \<and> avgAltitude (sample_response []) = NaN
   \<and> altitudeRange jst_host (sample_response []) = Inr NegInfinity
   \<and> statistics_card jst_host (initial_ui\<lparr>data := Some (sample_response [])\<rparr>) =
       Some (Inr (''Infinity'', ''-Infinity'', ''NaN'', ''-Infinity''))"
proof -
  have h: "points (sample_response []) = []"
    by (simp add: sample_response_def)
  show ?thesis
    by (rule statistics_of_empty_series [OF h])
qed

subsection \<open>The page behind its form\<close>

lemma handleSubmit_start_cases:
  "(\<exists>url. handleSubmit_start P s = (s\<lparr>loading := True, error := None, data := None\<rparr>, Some url))
   \<or> handleSubmit_start P s =
       (s\<lparr>loading := False, error := Some ''Invalid date/time format'', data := None\<rparr>, None)"
  by (auto simp: handleSubmit_start_def Let_def finally_clause_def catch_clause_def
      split: sum.splits dest!: toUTCISOString_message)

lemma resume_cells:
  "loading (handleSubmit_resume P out s) = False"
  "error s = None \<Longrightarrow> data s = None \<Longrightarrow>
     error (handleSubmit_resume P out s) = None \<or> data (handleSubmit_resume P out s) = None"
  by (auto simp: handleSubmit_resume_def split: outcome.splits sum.splits thrown.splits)

lemma at_rest_or_pending_initial: "at_rest_or_pending initial_system"
  by (simp add: at_rest_or_pending_def initial_system_def initial_ui_def)

lemma at_rest_or_pending_submit_form:
  assumes "at_rest_or_pending w"
  shows "at_rest_or_pending (submit_form P w)"
proof (cases "loading (ui w) \<or> \<not> form_valid (ui w)")
  case True
  then show ?thesis using assms by (auto simp: submit_form_def)
next
  case False
  then have e: "inflight w = []" using assms by (auto simp: at_rest_or_pending_def)
  from handleSubmit_start_cases [where P = P and s = "ui w"] show ?thesis
    using False e by (auto simp: submit_form_def issue_def at_rest_or_pending_def)
qed

lemma at_rest_or_pending_settle:
  assumes "at_rest_or_pending w"
  shows "at_rest_or_pending (settle P i out w)"
proof (cases "i < length (inflight w)")
  case False
  then show ?thesis using assms by (simp add: settle_def)
next
  case True
  then have p: "length (inflight w) = 1" "error (ui w) = None" "data (ui w) = None"
    using assms by (auto simp: at_rest_or_pending_def)
  with True have i: "i = 0" by simp
  show ?thesis
    using True p i resume_cells [where P = P and out = out and s = "ui w"]
    by (auto simp: settle_def at_rest_or_pending_def)
qed

lemma at_rest_or_pending_step:
  "at_rest_or_pending w \<Longrightarrow> at_rest_or_pending (step P w e)"
proof (cases e)
  case SubmitForm
  assume "at_rest_or_pending w"
  then show ?thesis using SubmitForm by (simp add: at_rest_or_pending_submit_form)
next
  case (Settle i out)
  assume "at_rest_or_pending w"
  then show ?thesis using Settle by (simp add: at_rest_or_pending_settle)
qed (auto simp: at_rest_or_pending_def)

lemma at_rest_or_pending_foldl:
  "at_rest_or_pending w \<Longrightarrow> at_rest_or_pending (foldl (step P) w evs)"
  by (induction evs arbitrary: w) (simp_all add: at_rest_or_pending_step)

lemma at_rest_or_pending_run: "at_rest_or_pending (run P evs)"
  by (simp add: run_def at_rest_or_pending_foldl at_rest_or_pending_initial)

lemma run_snoc: "run P (evs @ [e]) = step P (run P evs) e"
  by (simp add: run_def)

lemma parse_float_examples:
  "parse_float ''60'' = Some 60" "parse_float ''0'' = Some 0" "parse_float ''5000'' = Some 5000"
  "parse_float ''25544'' = Some 25544"
  by (simp_all add: parse_float_def float_mantissa_def float_exponent_def digit_val_def)

lemma number_input_valid_examples:
  "number_input_valid 1 (Some 3600) ''60''" "\<not> number_input_valid 1 (Some 3600) ''0''"
  "\<not> number_input_valid 1 (Some 3600) ''5000''" "number_input_valid 1 None ''25544''"
  by (simp_all add: number_input_valid_def parse_float_examples)

lemma resume_ok_cells:
  "data (handleSubmit_resume P (OkResponse (Inr r)) s) = Some r"
  "error (handleSubmit_resume P (OkResponse (Inr r)) s) = error s"
  by (simp_all add: handleSubmit_resume_def)

lemma handleSubmit_start_reads_inputs_only:
  "snd (handleSubmit_start P (s\<lparr>loading := l, error := e, data := d\<rparr>)) =
     snd (handleSubmit_start P s)"
  by (simp add: handleSubmit_start_def Let_def split: sum.splits)

lemma example_ui_issues: "snd (handleSubmit_start jst_host example_ui) \<noteq> None"
  using example_dates_read(2,3)
  by (auto simp: handleSubmit_start_def Let_def toUTCISOString_def jst_host_fields example_ui_def
      initial_ui_def split: option.splits)

lemma example_events_inflight: "inflight (run jst_host example_events) \<noteq> []"
  using example_ui_issues
  by (simp add: run_def example_events_def example_ui_def initial_system_def submit_form_def
      issue_def form_valid_def number_input_valid_examples initial_ui_def split: option.splits)

text \<open>
  Claim C3.  In every run of the page (inputs change, the form is submitted, requests
  settle, in any order and number) the three cells \<^verbatim>\<open>loading\<close>, \<^verbatim>\<open>error\<close> and \<^verbatim>\<open>data\<close>
  fit exactly one of Idle, Pending, Succeeded and Failed after each event: an error
  and a result are never both set, and no result is set while \<^verbatim>\<open>loading\<close>.  The cells
  read Pending exactly while a request is in flight.  The states are those between
  events: the writes of one synchronous run of \<^verbatim>\<open>handleSubmit\<close> are batched into one
  render.
\<close>

theorem lifecycle_exactly_one_variant:
  "lifecycle_view (ui (run P evs)) \<noteq> None
   \<and> \<not> (error (ui (run P evs)) \<noteq> None \<and> data (ui (run P evs)) \<noteq> None)
   \<and> \<not> (loading (ui (run P evs)) \<and> data (ui (run P evs)) \<noteq> None)
   \<and> (lifecycle_view (ui (run P evs)) = Some Pending) = (inflight (run P evs) \<noteq> [])"
  using at_rest_or_pending_run [of P evs]
  by (auto simp: at_rest_or_pending_def lifecycle_view_def split: option.splits)

theorem lifecycle_exactly_one_variant_witness:
  "lifecycle_view (ui (run jst_host example_events)) \<noteq> None
   \<and> \<not> (error (ui (run jst_host example_events)) \<noteq> None
        \<and> data (ui (run jst_host example_events)) \<noteq> None)
   \<and> \<not> (loading (ui (run jst_host example_events))
        \<and> data (ui (run jst_host example_events)) \<noteq> None)
   \<and> (lifecycle_view (ui (run jst_host example_events)) = Some Pending) =
       (inflight (run jst_host example_events) \<noteq> [])"
  by (rule lifecycle_exactly_one_variant)

text \<open>
  Claim C1, as stated, fails on \<^verbatim>\<open>handleSubmit\<close>: it keeps no attempt id and drops no
  response.  Call it for A, call it again for B while A is unresolved, let B's
  response (not ok, \<^verbatim>\<open>detail\<close> ``B failed'') arrive first and A's (ok) second: the
  final cells hold A's result next to B's error.
\<close>

theorem superseded_response_counterexample:
  "snd (handleSubmit_start jst_host example_ui) \<noteq> None
   \<and> snd (handleSubmit_start jst_host (fst (handleSubmit_start jst_host example_ui))) \<noteq> None
   \<and> data (handleSubmit_resume jst_host (OkResponse (Inr (sample_response [Fin 400])))
        (handleSubmit_resume jst_host
          (ErrorResponse (Inr (JObj [(''detail'', JStr ''B failed'')])))
          (fst (handleSubmit_start jst_host (fst (handleSubmit_start jst_host example_ui))))))
       = Some (sample_response [Fin 400])
   \<and> error (handleSubmit_resume jst_host (OkResponse (Inr (sample_response [Fin 400])))
        (handleSubmit_resume jst_host
          (ErrorResponse (Inr (JObj [(''detail'', JStr ''B failed'')])))
          (fst (handleSubmit_start jst_host (fst (handleSubmit_start jst_host example_ui))))))
       = Some ''B failed''"
proof -
  have a: "snd (handleSubmit_start jst_host example_ui) \<noteq> None"
    by (rule example_ui_issues)
  then have "fst (handleSubmit_start jst_host example_ui) =
      example_ui\<lparr>loading := True, error := None, data := None\<rparr>"
    using handleSubmit_start_cases [where P = jst_host and s = example_ui] by auto
  then have b: "snd (handleSubmit_start jst_host (fst (handleSubmit_start jst_host example_ui)))
      \<noteq> None"
    using a by (simp add: handleSubmit_start_reads_inputs_only)
  show ?thesis
    using a b by (simp add: resume_ok_cells error_of_non_ok error_detail_def)
qed

text \<open>
  Claim C1, amended.  The page prevents the overlap instead of resolving it: while a
  request is unresolved the submit button is disabled.  So in every run of the page
  at most one request is in flight; while it is, submitting the form again changes
  nothing; and when it settles, the cells are its response applied to the cleared
  cells of its own submission, so nothing of an earlier attempt is left.  A response
  is never discarded: whenever a request in flight settles, the continuation of
  \<^verbatim>\<open>handleSubmit\<close> runs on the current cells.
\<close>

theorem one_request_reflected_alone:
  "length (inflight (run P evs)) \<le> 1
   \<and> (inflight (run P evs) \<noteq> [] \<longrightarrow>
        run P (evs @ [SubmitForm]) = run P evs
        \<and> ui (run P (evs @ [Settle 0 out])) =
            handleSubmit_resume P out
              ((ui (run P evs))\<lparr>loading := True, error := None, data := None\<rparr>)
        \<and> inflight (run P (evs @ [Settle 0 out])) = [])
   \<and> (i < length (inflight w) \<longrightarrow> ui (settle P i out w) = handleSubmit_resume P out (ui w))"
proof -
  have inv: "at_rest_or_pending (run P evs)" by (rule at_rest_or_pending_run)
  then have a: "length (inflight (run P evs)) \<le> 1"
    by (auto simp: at_rest_or_pending_def)
  have b: "run P (evs @ [SubmitForm]) = run P evs
        \<and> ui (run P (evs @ [Settle 0 out])) =
            handleSubmit_resume P out
              ((ui (run P evs))\<lparr>loading := True, error := None, data := None\<rparr>)
        \<and> inflight (run P (evs @ [Settle 0 out])) = []" if "inflight (run P evs) \<noteq> []"
  proof -
    from inv that have p: "length (inflight (run P evs)) = 1" "loading (ui (run P evs)) = True"
      "error (ui (run P evs)) = None" "data (ui (run P evs)) = None"
      by (auto simp: at_rest_or_pending_def)
    then have eq: "(ui (run P evs))\<lparr>loading := True, error := None, data := None\<rparr> = ui (run P evs)"
      by simp
    show ?thesis
      unfolding eq using p by (simp add: run_snoc submit_form_def settle_def)
  qed
  have c: "ui (settle P i out w) = handleSubmit_resume P out (ui w)" if "i < length (inflight w)"
    using that by (simp add: settle_def)
  from a b c show ?thesis by blast
qed

theorem one_request_reflected_alone_witness:
  "length (inflight (run jst_host example_events)) \<le> 1
   \<and> run jst_host (example_events @ [SubmitForm]) = run jst_host example_events
   \<and> ui (run jst_host (example_events
          @ [Settle 0 (OkResponse (Inr (sample_response [Fin 400])))])) =
       handleSubmit_resume jst_host (OkResponse (Inr (sample_response [Fin 400])))
         ((ui (run jst_host example_events))\<lparr>loading := True, error := None, data := None\<rparr>)
   \<and> inflight (run jst_host (example_events
          @ [Settle 0 (OkResponse (Inr (sample_response [Fin 400])))])) = []"
  using example_events_inflight
    one_request_reflected_alone [of jst_host example_events
      "OkResponse (Inr (sample_response [Fin 400]))" 0 initial_system]
  by blast

subsection \<open>The request\<close>

lemma char_eq_nat: "c = d \<longleftrightarrow> (of_char c :: nat) = of_char d"
  by (auto dest: injD [OF inj_of_char])

lemma of_char_less: "(of_char c :: nat) < 256"
  using of_char_mod_256 [of c, where ?'a = nat]
  by (metis mod_less_divisor zero_less_numeral)

lemma of_char_hex_char: "k < 16 \<Longrightarrow> (of_char (hex_char k) :: nat) = (if k < 10 then 48 + k else 55 + k)"
  by (simp add: hex_char_def)

lemma hex_val_hex_char: "k < 16 \<Longrightarrow> hex_val (hex_char k) = Some k"
  by (simp add: hex_val_def of_char_hex_char Let_def)

lemma char_of_div_mod: "char_of (16 * (of_char c div 16) + of_char c mod 16 :: nat) = c"
  by simp

lemma decode_encode_byte:
  "percent_decode (map (\<lambda>c. if c = CHR ''+'' then CHR '' '' else c) (urlencode_byte c @ r)) =
     c # percent_decode (map (\<lambda>c. if c = CHR ''+'' then CHR '' '' else c) r)"
proof -
  let ?n = "of_char c :: nat"
  have n: "?n < 256" by (rule of_char_less)
  consider (space) "?n = 32"
    | (safe) "?n \<noteq> 32" "?n = 42 \<or> ?n = 45 \<or> ?n = 46 \<or> ?n = 95 \<or> (48 \<le> ?n \<and> ?n \<le> 57)
              \<or> (65 \<le> ?n \<and> ?n \<le> 90) \<or> (97 \<le> ?n \<and> ?n \<le> 122)"
    | (other) "?n \<noteq> 32" "\<not> (?n = 42 \<or> ?n = 45 \<or> ?n = 46 \<or> ?n = 95 \<or> (48 \<le> ?n \<and> ?n \<le> 57)
              \<or> (65 \<le> ?n \<and> ?n \<le> 90) \<or> (97 \<le> ?n \<and> ?n \<le> 122))"
    by blast
  then show ?thesis
  proof cases
    case space
    then have "c = CHR '' ''" by (simp add: char_eq_nat)
    then show ?thesis by (simp add: urlencode_byte_def)
  next
    case safe
    then have "c \<noteq> CHR ''+''" "c \<noteq> CHR ''%''" by (auto simp: char_eq_nat)
    then show ?thesis using safe by (simp add: urlencode_byte_def Let_def)
  next
    case other
    have hi: "?n div 16 < 16" and lo: "?n mod 16 < 16"
      using n by (simp_all add: less_mult_imp_div_less)
    have p: "hex_char (?n div 16) \<noteq> CHR ''+''" "hex_char (?n mod 16) \<noteq> CHR ''+''"
      using hi lo by (auto simp: char_eq_nat of_char_hex_char)
    show ?thesis
      using other hi lo p
      by (simp add: urlencode_byte_def Let_def hex_val_hex_char)
  qed
qed

lemma urldecode_urlencode: "urldecode (urlencode s) = s"
proof -
  have "percent_decode (map (\<lambda>c. if c = CHR ''+'' then CHR '' '' else c) (urlencode s)) = s"
  proof (induction s)
    case Nil
    show ?case by (simp add: urlencode_def)
  next
    case (Cons c s)
    have "urlencode (c # s) = urlencode_byte c @ urlencode s" by (simp add: urlencode_def)
    then show ?case using Cons decode_encode_byte [of c "urlencode s"] by simp
  qed
  then show ?thesis by (simp add: urldecode_def)
qed

lemma query_char_hex_char:
  assumes "k < 16"
  shows "query_char (hex_char k) \<and> hex_char k \<noteq> CHR ''&'' \<and> hex_char k \<noteq> CHR ''=''"
proof -
  have "(of_char (hex_char k) :: nat) = (if k < 10 then 48 + k else 55 + k)"
    using assms by (rule of_char_hex_char)
  then have "(48 \<le> (of_char (hex_char k) :: nat) \<and> (of_char (hex_char k) :: nat) \<le> 57)
      \<or> (65 \<le> (of_char (hex_char k) :: nat) \<and> (of_char (hex_char k) :: nat) \<le> 90)"
    using assms by (cases "k < 10") simp_all
  then show ?thesis
    unfolding query_char_def Let_def char_eq_nat by auto
qed

lemma urlencode_byte_chars:
  assumes x: "x \<in> set (urlencode_byte c)"
  shows "query_char x \<and> x \<noteq> CHR ''&'' \<and> x \<noteq> CHR ''=''"
proof -
  let ?n = "of_char c :: nat"
  have n: "?n < 256" by (rule of_char_less)
  have hi: "?n div 16 < 16" and lo: "?n mod 16 < 16"
    using n by (simp_all add: less_mult_imp_div_less)
  consider (space) "?n = 32"
    | (safe) "?n \<noteq> 32" "?n = 42 \<or> ?n = 45 \<or> ?n = 46 \<or> ?n = 95 \<or> (48 \<le> ?n \<and> ?n \<le> 57)
              \<or> (65 \<le> ?n \<and> ?n \<le> 90) \<or> (97 \<le> ?n \<and> ?n \<le> 122)"
    | (other) "?n \<noteq> 32" "\<not> (?n = 42 \<or> ?n = 45 \<or> ?n = 46 \<or> ?n = 95 \<or> (48 \<le> ?n \<and> ?n \<le> 57)
              \<or> (65 \<le> ?n \<and> ?n \<le> 90) \<or> (97 \<le> ?n \<and> ?n \<le> 122))"
    by blast
  then show ?thesis
  proof cases
    case space
    then have "x = CHR ''+''" using x by (simp add: urlencode_byte_def)
    then show ?thesis by (simp add: query_char_def)
  next
    case safe
    then have "x = c" using x by (simp add: urlencode_byte_def Let_def)
    moreover have "query_char c \<and> c \<noteq> CHR ''&'' \<and> c \<noteq> CHR ''=''"
      unfolding query_char_def Let_def char_eq_nat using safe(2) by auto
    ultimately show ?thesis by simp
  next
    case other
    then have "x = CHR ''%'' \<or> x = hex_char (?n div 16) \<or> x = hex_char (?n mod 16)"
      using x by (auto simp: urlencode_byte_def Let_def split: if_splits)
    moreover have "query_char CHR ''%''" by (simp add: query_char_def)
    ultimately show ?thesis
      using query_char_hex_char [OF hi] query_char_hex_char [OF lo] by auto
  qed
qed

lemma urlencode_chars:
  "x \<in> set (urlencode s) \<Longrightarrow> query_char x \<and> x \<noteq> CHR ''&'' \<and> x \<noteq> CHR ''=''"
  using urlencode_byte_chars by (auto simp: urlencode_def)

lemma split_on_no_sep: "sep \<notin> set a \<Longrightarrow> split_on sep a = [a]"
  by (induction a) auto

lemma split_on_append: "sep \<notin> set a \<Longrightarrow> split_on sep (a @ sep # r) = a # split_on sep r"
  by (induction a) auto

lemma split_on_join:
  "xs \<noteq> [] \<Longrightarrow> \<forall>x \<in> set xs. sep \<notin> set x \<Longrightarrow> split_on sep (join [sep] xs) = xs"
proof (induction "[sep]" xs rule: join.induct)
  case 1
  then show ?case by simp
next
  case (2 x)
  then show ?case by (simp add: split_on_no_sep)
next
  case (3 x y ys)
  then show ?case by (simp add: split_on_append)
qed

lemma takeWhile_until: "c \<notin> set a \<Longrightarrow> takeWhile (\<lambda>x. x \<noteq> c) (a @ c # r) = a"
  by (induction a) auto

lemma dropWhile_until: "c \<notin> set a \<Longrightarrow> dropWhile (\<lambda>x. x \<noteq> c) (a @ c # r) = c # r"
  by (induction a) auto

lemma parse_pair_encoded: "parse_pair (urlencode k @ CHR ''='' # urlencode v) = (k, v)"
proof -
  have k: "CHR ''='' \<notin> set (urlencode k)" using urlencode_chars by blast
  show ?thesis
    by (simp add: parse_pair_def takeWhile_until [OF k] dropWhile_until [OF k]
        urldecode_urlencode)
qed

lemma parse_query_serialized: "parse_query (URLSearchParams_toString ps) = ps"
proof (cases "ps = []")
  case True
  then show ?thesis by (simp add: parse_query_def URLSearchParams_toString_def)
next
  case False
  let ?pieces = "map (\<lambda>(k, v). urlencode k @ ''='' @ urlencode v) ps"
  have "\<forall>x \<in> set ?pieces. CHR ''&'' \<notin> set x"
    using urlencode_chars by (fastforce simp: )
  then have "split_on CHR ''&'' (join ''&'' ?pieces) = ?pieces"
    using False by (intro split_on_join) auto
  moreover have "filter (\<lambda>piece. piece \<noteq> []) ?pieces = ?pieces"
    by (auto simp: filter_id_conv)
  moreover have "map parse_pair ?pieces = ps"
    by (induction ps) (auto simp: parse_pair_encoded)
  ultimately show ?thesis
    by (simp add: parse_query_def URLSearchParams_toString_def)
qed

lemma serialized_chars: "list_all query_char (URLSearchParams_toString ps)"
proof -
  have j: "list_all query_char (join ''&'' xs)" if "\<forall>x \<in> set xs. list_all query_char x" for xs
    using that by (induction "''&''" xs rule: join.induct) (auto simp: query_char_def)
  have "\<forall>x \<in> set (map (\<lambda>(k, v). urlencode k @ ''='' @ urlencode v) ps). list_all query_char x"
    using urlencode_chars by (auto simp: list_all_iff query_char_def)
  then show ?thesis unfolding URLSearchParams_toString_def by (rule j)
qed

text \<open>
  Claim C7.  For all four input strings the URL handed to \<^verbatim>\<open>fetch\<close> is the backend
  URL, the path \<^verbatim>\<open>/altitude\<close> and a query; the query consists of serialized bytes only
  (every other byte is percent-encoded, a space is \<^verbatim>\<open>+\<close>), and read back by the query
  parser of the URL standard it is exactly the four parameters \<^verbatim>\<open>n\<close>, \<^verbatim>\<open>start\<close>, \<^verbatim>\<open>end\<close>
  and \<^verbatim>\<open>step_seconds\<close>, in this order, with the given values.  \<open>request_url\<close> is a
  function of its arguments: building the URL calls nothing.
\<close>

theorem request_carries_four_parameters:
  "\<exists>q. request_url env n a b st = backendUrl env @ ''/altitude?'' @ q
       \<and> parse_query q = [(''n'', n), (''start'', a), (''end'', b), (''step_seconds'', st)]
       \<and> list_all query_char q"
  unfolding request_url_def
  by (rule exI [of _ "URLSearchParams_toString
        [(''n'', n), (''start'', a), (''end'', b), (''step_seconds'', st)]"])
    (simp add: parse_query_serialized serialized_chars)

subsection \<open>The step and its range\<close>

lemma issued_only_if_parsed:
  assumes "snd (handleSubmit_start P s) \<noteq> None"
  shows "Date_parse P (startTime s) \<noteq> None \<and> Date_parse P (endTime s) \<noteq> None"
  using assms
  by (auto simp: handleSubmit_start_def toUTCISOString_def Let_def split: option.splits)

text \<open>
  Claim C9, as stated, fails: the step input carries \<^verbatim>\<open>min="1"\<close> and \<^verbatim>\<open>max="3600"\<close>, so
  with 0 or 5000 in it the form is not submitted; nothing is sent and nothing is
  shown.  With 60 in it the same events issue a request.
\<close>

theorem step_out_of_range_counterexample:
  "run jst_host (example_events_with_step ''0'') =
     \<lparr>ui = example_ui\<lparr>stepSeconds := ''0''\<rparr>, inflight = []\<rparr>
   \<and> run jst_host (example_events_with_step ''5000'') =
     \<lparr>ui = example_ui\<lparr>stepSeconds := ''5000''\<rparr>, inflight = []\<rparr>
   \<and> inflight (run jst_host (example_events_with_step ''60'')) \<noteq> []"
proof -
  have "snd (handleSubmit_start jst_host (example_ui\<lparr>stepSeconds := ''60''\<rparr>)) \<noteq> None"
    using example_ui_issues
    by (simp add: handleSubmit_start_def Let_def split: sum.splits)
  then show ?thesis
    by (simp add: run_def example_events_with_step_def example_ui_def initial_system_def
        submit_form_def issue_def form_valid_def number_input_valid_examples initial_ui_def
        split: option.splits)
qed

text \<open>
  Claim C9, amended.  \<^verbatim>\<open>handleSubmit\<close> itself checks no range: whenever both
  timestamps parse, the request it issues carries \<^verbatim>\<open>step_seconds\<close> with the very string
  of the step input, and a non-empty string \<^verbatim>\<open>detail\<close> of a response that is not ok
  becomes the message as it is.  The range is checked by the form: with 0 or 5000 in
  the step input a submission does nothing, so \<^verbatim>\<open>handleSubmit\<close> does not run.
\<close>

theorem step_passed_by_handler_checked_by_form:
  "(Date_parse P (startTime s) \<noteq> None \<and> Date_parse P (endTime s) \<noteq> None \<longrightarrow>
      (\<exists>q. snd (handleSubmit_start P s) =
              Some (backendUrl (NEXT_PUBLIC_BACKEND_URL P) @ ''/altitude?'' @ q)
           \<and> map_of (parse_query q) ''step_seconds'' = Some (stepSeconds s)))
   \<and> (d \<noteq> [] \<longrightarrow>
        error (handleSubmit_resume P (ErrorResponse (Inr (JObj [(''detail'', JStr d)]))) s) =
          Some d)
   \<and> (stepSeconds (ui w) = ''0'' \<or> stepSeconds (ui w) = ''5000'' \<longrightarrow>
        step P w SubmitForm = w)"
proof -
  have a: "\<exists>q. snd (handleSubmit_start P s) =
              Some (backendUrl (NEXT_PUBLIC_BACKEND_URL P) @ ''/altitude?'' @ q)
           \<and> map_of (parse_query q) ''step_seconds'' = Some (stepSeconds s)"
    if "Date_parse P (startTime s) \<noteq> None" and "Date_parse P (endTime s) \<noteq> None"
  proof -
    from that obtain x y where "toUTCISOString (Date_parse P) (startTime s) = Inr x"
      and "toUTCISOString (Date_parse P) (endTime s) = Inr y"
      by (auto simp: toUTCISOString_def)
    then have "snd (handleSubmit_start P s) =
        Some (backendUrl (NEXT_PUBLIC_BACKEND_URL P) @ ''/altitude?''
          @ URLSearchParams_toString
              [(''n'', noradId s), (''start'', x), (''end'', y), (''step_seconds'', stepSeconds s)])"
      by (simp add: handleSubmit_start_def request_url_def)
    then show ?thesis
      by (intro exI conjI) (assumption, simp add: parse_query_serialized)
  qed
  have b: "error (handleSubmit_resume P (ErrorResponse (Inr (JObj [(''detail'', JStr d)]))) s) =
      Some d" if "d \<noteq> []"
    using that by (simp add: error_of_non_ok error_detail_def)
  have c: "step P w SubmitForm = w"
    if "stepSeconds (ui w) = ''0'' \<or> stepSeconds (ui w) = ''5000''"
    using that by (auto simp: submit_form_def form_valid_def number_input_valid_examples)
  from a b c show ?thesis by blast
qed

theorem step_passed_by_handler_checked_by_form_witness:
  "(\<exists>q. snd (handleSubmit_start jst_host (example_ui\<lparr>stepSeconds := ''0''\<rparr>)) =
          Some (backendUrl (NEXT_PUBLIC_BACKEND_URL jst_host) @ ''/altitude?'' @ q)
        \<and> map_of (parse_query q) ''step_seconds'' = Some ''0'')
   \<and> error (handleSubmit_resume jst_host
        (ErrorResponse (Inr (JObj [(''detail'', JStr ''step_seconds must be in 1..3600'')])))
        (example_ui\<lparr>stepSeconds := ''0''\<rparr>)) = Some ''step_seconds must be in 1..3600''
   \<and> step jst_host \<lparr>ui = example_ui\<lparr>stepSeconds := ''0''\<rparr>, inflight = []\<rparr> SubmitForm =
       \<lparr>ui = example_ui\<lparr>stepSeconds := ''0''\<rparr>, inflight = []\<rparr>"
proof -
  have h: "Date_parse jst_host (startTime (example_ui\<lparr>stepSeconds := ''0''\<rparr>)) \<noteq> None
      \<and> Date_parse jst_host (endTime (example_ui\<lparr>stepSeconds := ''0''\<rparr>)) \<noteq> None"
    using issued_only_if_parsed [OF example_ui_issues] by simp
  show ?thesis
    using h step_passed_by_handler_checked_by_form [of jst_host
        "example_ui\<lparr>stepSeconds := ''0''\<rparr>" "''step_seconds must be in 1..3600''"
        "\<lparr>ui = example_ui\<lparr>stepSeconds := ''0''\<rparr>, inflight = []\<rparr>"]
    by simp
qed

subsection \<open>Calendar arithmetic\<close>

lemma div_step:
  fixes x k :: int
  assumes k: "0 < k"
  shows "(x + 1) div k = (if k dvd x + 1 then x div k + 1 else x div k)"
proof (cases "k dvd x + 1")
  case True
  then obtain q where q: "x + 1 = k * q" by (auto simp: dvd_def)
  then have "x = k * (q - 1) + (k - 1)" by (simp add: algebra_simps)
  then have "x div k = q - 1"
    using k int_div_pos_eq [of x k "q - 1" "k - 1"] by simp
  moreover have "(x + 1) div k = q" using q k by simp
  ultimately show ?thesis using True by simp
next
  case False
  have r: "0 \<le> x mod k" "x mod k < k" using k by simp_all
  have "x mod k + 1 \<noteq> k"
  proof
    assume e: "x mod k + 1 = k"
    have "x + 1 = k * (x div k) + (x mod k + 1)" by simp
    also have "\<dots> = k * (x div k + 1)" by (subst e) (simp add: algebra_simps)
    finally have "k dvd x + 1" by (metis dvd_triv_left)
    with False show False by simp
  qed
  with r have r': "x mod k + 1 < k" by simp
  have "x + 1 = k * (x div k) + (x mod k + 1)" by simp
  then have "(x + 1) div k = x div k"
    using r r' int_div_pos_eq [of "x + 1" k "x div k" "x mod k + 1"] by simp
  with False show ?thesis by simp
qed

lemma DayFromYear_step: "DayFromYear (y + 1) = DayFromYear y + DaysInYear y"
proof -
  have d4: "4 dvd (y - 1969 + 1) \<longleftrightarrow> 4 dvd y"
  proof -
    have "(4::int) dvd 1968" by simp
    then have "4 dvd (y - 1968) \<longleftrightarrow> 4 dvd y" by (rule dvd_diff_left_iff)
    then show ?thesis by simp
  qed
  have d100: "100 dvd (y - 1901 + 1) \<longleftrightarrow> 100 dvd y"
  proof -
    have "(100::int) dvd 1900" by simp
    then have "100 dvd (y - 1900) \<longleftrightarrow> 100 dvd y" by (rule dvd_diff_left_iff)
    then show ?thesis by simp
  qed
  have d400: "400 dvd (y - 1601 + 1) \<longleftrightarrow> 400 dvd y"
  proof -
    have "(400::int) dvd 1600" by simp
    then have "400 dvd (y - 1600) \<longleftrightarrow> 400 dvd y" by (rule dvd_diff_left_iff)
    then show ?thesis by simp
  qed
  have i1: "100 dvd y \<Longrightarrow> 4 dvd y"
    using dvd_trans [of 4 100 y] by simp
  have i2: "400 dvd y \<Longrightarrow> 100 dvd y"
    using dvd_trans [of 100 400 y] by simp
  have "DayFromYear (y + 1) =
      365 * (y - 1970) + 365 + (y - 1969 + 1) div 4 - (y - 1901 + 1) div 100
        + (y - 1601 + 1) div 400"
    by (simp add: DayFromYear_def algebra_simps)
  also have "\<dots> = DayFromYear y + DaysInYear y"
    unfolding div_step [of 4, simplified] div_step [of 100, simplified]
      div_step [of 400, simplified] d4 d100 d400 DaysInYear_def DayFromYear_def
      mod_eq_0_iff_dvd
    using i1 i2 by auto
  finally show ?thesis .
qed

lemma DaysInYear_range: "DaysInYear y = 365 \<or> DaysInYear y = 366"
  by (simp add: DaysInYear_def)

lemma InLeapYear_range: "InLeapYear y = 0 \<or> InLeapYear y = 1"
  by (simp add: InLeapYear_def)

lemma DaysInYear_InLeapYear: "DaysInYear y = 365 + InLeapYear y"
  using DaysInYear_range [of y] by (auto simp: InLeapYear_def)

lemma DayFromYear_mono_nat: "DayFromYear y \<le> DayFromYear (y + int n)"
proof (induction n)
  case 0
  show ?case by simp
next
  case (Suc n)
  have "y + int (Suc n) = y + int n + 1" by simp
  then have "DayFromYear (y + int (Suc n)) = DayFromYear (y + int n + 1)" by (rule arg_cong)
  also have "\<dots> = DayFromYear (y + int n) + DaysInYear (y + int n)" by (rule DayFromYear_step)
  finally show ?case using Suc DaysInYear_range [of "y + int n"] by auto
qed

lemma DayFromYear_mono: "a \<le> b \<Longrightarrow> DayFromYear a \<le> DayFromYear b"
  using DayFromYear_mono_nat [of a "nat (b - a)"] by simp

lemma DayFromYear_less_imp: "DayFromYear a \<le> d \<Longrightarrow> d < DayFromYear b \<Longrightarrow> a < b"
  using DayFromYear_mono [of b a] by (cases "b \<le> a") auto

lemma year_search_bounds:
  "DayFromYear (year_search d y) \<le> d \<and> d < DayFromYear (year_search d y + 1)"
proof (induction d y rule: year_search.induct)
  case (1 d y)
  show ?case
  proof (cases "DayFromYear (y + 1) \<le> d")
    case True
    with "1.IH"(1) show ?thesis by (subst (1 2) year_search.simps) simp
  next
    case False
    show ?thesis
    proof (cases "d < DayFromYear y")
      case True
      with False "1.IH"(2) show ?thesis by (subst (1 2) year_search.simps) simp
    next
      case b: False
      with False show ?thesis by (subst (1 2) year_search.simps) simp
    qed
  qed
qed

lemma YearFromDay_bounds:
  "DayFromYear (YearFromDay d) \<le> d \<and> d < DayFromYear (YearFromDay d + 1)"
  unfolding YearFromDay_def by (rule year_search_bounds)

lemma DayWithinYear_range:
  "0 \<le> DayWithinYear tv \<and> DayWithinYear tv < 365 + InLeapYear (YearFromTime tv)"
  using YearFromDay_bounds [of "Day tv"] DayFromYear_step [of "YearFromTime tv"]
  by (simp add: DayWithinYear_def YearFromTime_def DaysInYear_InLeapYear)

lemma MonthFromDayInYear_range:
  assumes "l = 0 \<or> l = 1" and "0 \<le> dwy" and "dwy < 365 + l"
  shows "0 \<le> MonthFromDayInYear l dwy \<and> MonthFromDayInYear l dwy \<le> 11"
  by (simp add: MonthFromDayInYear_def)

lemma DateFromDayInYear_range:
  assumes "l = 0 \<or> l = 1" and "0 \<le> dwy" and "dwy < 365 + l"
  shows "1 \<le> dwy - DaysBeforeMonth l (MonthFromDayInYear l dwy) + 1
         \<and> dwy - DaysBeforeMonth l (MonthFromDayInYear l dwy) + 1 \<le> 31"
  using assms unfolding MonthFromDayInYear_def DaysBeforeMonth_def
  by (auto split: if_splits)

lemma MonthFromTime_range: "0 \<le> MonthFromTime tv \<and> MonthFromTime tv \<le> 11"
  unfolding MonthFromTime_def
  using MonthFromDayInYear_range [OF InLeapYear_range] DayWithinYear_range [of tv] by blast

lemma DateFromTime_range: "1 \<le> DateFromTime tv \<and> DateFromTime tv \<le> 31"
  unfolding DateFromTime_def MonthFromTime_def
  using DateFromDayInYear_range [OF InLeapYear_range] DayWithinYear_range [of tv] by blast

lemma MakeDay_of_fields:
  "MakeDay (YearFromTime tv) (MonthFromTime tv) (DateFromTime tv) = Day tv"
proof -
  have m: "MonthFromTime tv div 12 = 0" "MonthFromTime tv mod 12 = MonthFromTime tv"
    using MonthFromTime_range [of tv] by simp_all
  show ?thesis
    by (simp add: MakeDay_def m Let_def DateFromTime_def DayWithinYear_def)
qed

lemma time_fields_range:
  "0 \<le> HourFromTime tv \<and> HourFromTime tv \<le> 23 \<and> 0 \<le> MinFromTime tv \<and> MinFromTime tv \<le> 59
   \<and> 0 \<le> SecFromTime tv \<and> SecFromTime tv \<le> 59 \<and> 0 \<le> msFromTime tv \<and> msFromTime tv \<le> 999"
proof -
  have a: "0 \<le> x mod 24 \<and> x mod 24 \<le> 23" for x :: int
    using pos_mod_bound [where l = 24 and k = x] pos_mod_sign [where l = 24 and k = x] by simp
  have b: "0 \<le> x mod 60 \<and> x mod 60 \<le> 59" for x :: int
    using pos_mod_bound [where l = 60 and k = x] pos_mod_sign [where l = 60 and k = x] by simp
  have c: "0 \<le> x mod 1000 \<and> x mod 1000 \<le> 999" for x :: int
    using pos_mod_bound [where l = 1000 and k = x] pos_mod_sign [where l = 1000 and k = x] by simp
  show ?thesis
    unfolding HourFromTime_def MinFromTime_def SecFromTime_def msFromTime_def
    using a b c by blast
qed

lemma MakeTime_of_fields:
  "MakeTime (HourFromTime tv) (MinFromTime tv) (SecFromTime tv) (msFromTime tv) = TimeWithinDay tv"
proof -
  have a: "tv mod 60000 = 1000 * (tv div 1000 mod 60) + tv mod 1000"
    using zmod_zmult2_eq [of 60 tv 1000] by simp
  have b: "tv mod 3600000 = 60000 * (tv div 60000 mod 60) + tv mod 60000"
    using zmod_zmult2_eq [of 60 tv 60000] by simp
  have c: "tv mod 86400000 = 3600000 * (tv div 3600000 mod 24) + tv mod 3600000"
    using zmod_zmult2_eq [of 24 tv 3600000] by simp
  have "TimeWithinDay tv = tv mod 86400000"
    by (simp only: TimeWithinDay_def msPerDay_def)
  also have "\<dots> = 3600000 * (tv div 3600000 mod 24) + (60000 * (tv div 60000 mod 60)
      + (1000 * (tv div 1000 mod 60) + tv mod 1000))"
    by (simp only: a b c)
  also have "\<dots> = MakeTime (HourFromTime tv) (MinFromTime tv) (SecFromTime tv) (msFromTime tv)"
    by (simp only: MakeTime_def HourFromTime_def MinFromTime_def SecFromTime_def msFromTime_def
        mult.commute add.assoc)
  finally show ?thesis by (rule sym)
qed

lemma MakeDate_of_fields:
  "MakeDate (MakeDay (YearFromTime tv) (MonthFromTime tv) (DateFromTime tv))
     (MakeTime (HourFromTime tv) (MinFromTime tv) (SecFromTime tv) (msFromTime tv)) = tv"
  by (simp add: MakeDay_of_fields MakeTime_of_fields MakeDate_def Day_def TimeWithinDay_def)

subsection \<open>Writing and reading date-time strings\<close>

lemma of_char_digit_char: "(of_char (digit_char n) :: nat) = 48 + n mod 10"
  by (simp add: digit_char_def)

lemma digit_val_digit_char: "digit_val (digit_char n) = Some (n mod 10)"
  by (simp add: digit_val_def of_char_digit_char Let_def)

lemma digit_char_not_punct:
  "digit_char n \<noteq> CHR ''+''" "digit_char n \<noteq> CHR ''-''" "digit_char n \<noteq> CHR ''.''"
  by (simp_all add: char_eq_nat of_char_digit_char)

lemma take_two_digits:
  "take_digits (Suc (Suc 0)) a (two_digits n @ r) = Some (100 * a + n mod 100, r)"
proof -
  have "n mod (10 * 10) = 10 * (n div 10 mod 10) + n mod 10" by (rule mod_mult2_eq)
  then show ?thesis by (simp add: two_digits_def digit_val_digit_char)
qed

lemma take_three_digits:
  "take_digits (Suc (Suc (Suc 0))) a (three_digits n @ r) = Some (1000 * a + n mod 1000, r)"
proof -
  have "n mod (100 * 10) = 100 * (n div 100 mod 10) + n mod 100" by (rule mod_mult2_eq)
  then show ?thesis by (simp add: three_digits_def digit_val_digit_char take_two_digits)
qed

lemma take_four_digits:
  "take_digits (Suc (Suc (Suc (Suc 0)))) a (four_digits n @ r) = Some (10000 * a + n mod 10000, r)"
proof -
  have "n mod (1000 * 10) = 1000 * (n div 1000 mod 10) + n mod 1000" by (rule mod_mult2_eq)
  then show ?thesis by (simp add: four_digits_def digit_val_digit_char take_three_digits)
qed

lemma take_six_digits:
  "take_digits (Suc (Suc (Suc (Suc (Suc (Suc 0)))))) a (six_digits n @ r) =
     Some (1000000 * a + n mod 1000000, r)"
proof -
  have x: "n mod (10000 * 10) = 10000 * (n div 10000 mod 10) + n mod 10000" by (rule mod_mult2_eq)
  have y: "n mod (100000 * 10) = 100000 * (n div 100000 mod 10) + n mod 100000"
    by (rule mod_mult2_eq)
  from x y show ?thesis by (simp add: six_digits_def digit_val_digit_char take_four_digits)
qed

lemma read2_two_digits: "n < 100 \<Longrightarrow> read2 (two_digits n @ r) = Some (n, r)"
  by (simp add: read2_def take_two_digits)

lemma parse_year_by_head:
  "parse_year s =
     (if s = [] then None
      else if hd s = CHR ''+'' then
        (case read6 (tl s) of None \<Rightarrow> None | Some (y, r') \<Rightarrow> Some (int y, r'))
      else if hd s = CHR ''-'' then
        (case read6 (tl s) of None \<Rightarrow> None
         | Some (y, r') \<Rightarrow> if y = 0 then None else Some (- int y, r'))
      else (case read4 s of None \<Rightarrow> None | Some (y, r') \<Rightarrow> Some (int y, r')))"
  by (cases s) (simp_all add: parse_year_def)

lemma four_digits_head:
  "four_digits n \<noteq> []" "hd (four_digits n @ r) = digit_char (n div 1000)"
  by (simp_all add: four_digits_def)

lemma parse_year_year_string:
  assumes "- 999999 \<le> y" and "y \<le> 999999"
  shows "parse_year (year_string y @ r) = Some (y, r)"
proof -
  consider (four) "0 \<le> y" "y \<le> 9999" | (neg) "y < 0" | (big) "9999 < y" by linarith
  then show ?thesis
  proof cases
    case four
    then have "nat y mod 10000 = nat y" by simp
    then show ?thesis
      using four
      by (simp add: parse_year_by_head year_string_def read4_def take_four_digits
          four_digits_head digit_char_not_punct)
  next
    case neg
    then have "nat (- y) mod 1000000 = nat (- y)" using assms by simp
    then show ?thesis
      using neg by (simp add: parse_year_def year_string_def read6_def take_six_digits)
  next
    case big
    then have "nat y mod 1000000 = nat y" using assms by simp
    then show ?thesis
      using big by (simp add: parse_year_def year_string_def read6_def take_six_digits)
  qed
qed

lemma expect_simps:
  "expect c (c # r) = Some r" "x \<noteq> c \<Longrightarrow> expect c (x # r) = None" "expect c [] = None"
  by (simp_all add: expect_def)

lemma parse_date_fields:
  assumes "- 999999 \<le> y" and "y \<le> 999999" and "mo < 100" and "d < 100"
  shows "parse_date (year_string y @ CHR ''-'' # two_digits mo @ CHR ''-'' # two_digits d @ r) =
           Some (y, int mo, int d, r)"
  using assms
  by (simp add: parse_date_def parse_year_year_string expect_simps read2_two_digits)

lemma parse_time_fields:
  assumes "h < 100" and "mi < 100" and "s < 100" and "expect CHR ''.'' r = None"
  shows "parse_time (two_digits h @ CHR '':'' # two_digits mi @ CHR '':'' # two_digits s @ r) =
           Some (int h, int mi, int s, 0, r)"
  using assms by (simp add: parse_time_def expect_simps read2_two_digits)

lemma Date_parse_iso_datetime_string:
  assumes "- 999999 \<le> y" and "y \<le> 999999"
    and "fields_in_range (int mo) (int d) (int h) (int mi) (int s) 0"
  shows "Date_parse_iso tza (datetime_string y mo d h mi s) =
           TimeClip (MakeDate (MakeDay y (int mo - 1) (int d)) (MakeTime (int h) (int mi) (int s) 0)
             - tza (MakeDate (MakeDay y (int mo - 1) (int d))
                 (MakeTime (int h) (int mi) (int s) 0)))"
    and "Date_parse_iso tza (datetime_string y mo d h mi s @ ''Z'') =
           TimeClip (MakeDate (MakeDay y (int mo - 1) (int d)) (MakeTime (int h) (int mi) (int s) 0))"
proof -
  have b: "mo < 100" "d < 100" "h < 100" "mi < 100" "s < 100"
    using assms(3) by (auto simp: fields_in_range_def)
  show "Date_parse_iso tza (datetime_string y mo d h mi s) =
           TimeClip (MakeDate (MakeDay y (int mo - 1) (int d)) (MakeTime (int h) (int mi) (int s) 0)
             - tza (MakeDate (MakeDay y (int mo - 1) (int d))
                 (MakeTime (int h) (int mi) (int s) 0)))"
    using assms b
    by (simp add: Date_parse_iso_def datetime_string_def parse_date_fields
        parse_time_fields [where r = "[]", simplified] expect_simps parse_zone_def Let_def)
  show "Date_parse_iso tza (datetime_string y mo d h mi s @ ''Z'') =
           TimeClip (MakeDate (MakeDay y (int mo - 1) (int d)) (MakeTime (int h) (int mi) (int s) 0))"
    using assms b
    by (simp add: Date_parse_iso_def datetime_string_def parse_date_fields parse_time_fields
        expect_simps parse_zone_def Let_def)
qed

lemma toISOString_datetime_string:
  "toISOString tv =
     datetime_string (YearFromTime tv) (nat (MonthFromTime tv + 1)) (nat (DateFromTime tv))
       (nat (HourFromTime tv)) (nat (MinFromTime tv)) (nat (SecFromTime tv))
     @ ''.'' @ three_digits (nat (msFromTime tv)) @ ''Z''"
  by (simp add: toISOString_def datetime_string_def)

lemma three_digits_zero: "three_digits 0 = ''000''"
  by code_simp

lemma replace_suffix:
  "CHR ''.'' \<notin> set p \<Longrightarrow> replace ''.000Z'' ''Z'' (p @ ''.000Z'') = p @ ''Z''"
  by (induction p) auto

lemma dot_not_digit_char: "CHR ''.'' \<noteq> digit_char n"
  using digit_char_not_punct(3) [of n] by (rule not_sym)

lemma no_dot_two_digits: "CHR ''.'' \<notin> set (two_digits n)"
  by (simp add: two_digits_def dot_not_digit_char)

lemma no_dot_year_string: "CHR ''.'' \<notin> set (year_string y)"
  by (simp add: year_string_def four_digits_def three_digits_def six_digits_def two_digits_def
      dot_not_digit_char)

lemma no_dot_datetime_string: "CHR ''.'' \<notin> set (datetime_string y mo d h mi s)"
  by (simp add: datetime_string_def no_dot_two_digits no_dot_year_string)

lemma Day_bounds:
  assumes "\<bar>tv\<bar> \<le> 8640000000000000"
  shows "- 100000000 \<le> Day tv \<and> Day tv \<le> 100000000"
proof -
  have "(- 8640000000000000) div 86400000 \<le> tv div (86400000::int)"
    using assms by (intro zdiv_mono1) auto
  moreover have "tv div (86400000::int) \<le> 8640000000000000 div 86400000"
    using assms by (intro zdiv_mono1) auto
  ultimately show ?thesis by (simp add: Day_def msPerDay_def)
qed

lemma YearFromTime_bounds:
  assumes "\<bar>tv\<bar> \<le> 8640000000000000"
  shows "- 999999 \<le> YearFromTime tv \<and> YearFromTime tv \<le> 999999"
proof -
  have d: "- 100000000 \<le> Day tv" "Day tv \<le> 100000000"
    using Day_bounds [OF assms] by simp_all
  have y: "DayFromYear (YearFromTime tv) \<le> Day tv" "Day tv < DayFromYear (YearFromTime tv + 1)"
    using YearFromDay_bounds [of "Day tv"] by (simp_all add: YearFromTime_def)
  have hi: "100000000 < DayFromYear 999999" by (simp add: DayFromYear_def)
  have lo: "DayFromYear (- 999999) \<le> - 100000000" by (simp add: DayFromYear_def)
  have "YearFromTime tv < 999999"
    using DayFromYear_less_imp [of "YearFromTime tv" "Day tv" 999999] y d hi by simp
  moreover have "- 999999 < YearFromTime tv + 1"
    using DayFromYear_less_imp [of "- 999999" "Day tv" "YearFromTime tv + 1"] y d lo by simp
  ultimately show ?thesis by simp
qed

lemma parse_back:
  assumes "\<bar>tv\<bar> \<le> 8640000000000000" and "tv mod 1000 = 0"
  shows "replace ''.000Z'' ''Z'' (toISOString tv) =
           datetime_string (YearFromTime tv) (nat (MonthFromTime tv + 1)) (nat (DateFromTime tv))
             (nat (HourFromTime tv)) (nat (MinFromTime tv)) (nat (SecFromTime tv)) @ ''Z''"
    and "Date_parse_iso tza
           (datetime_string (YearFromTime tv) (nat (MonthFromTime tv + 1)) (nat (DateFromTime tv))
             (nat (HourFromTime tv)) (nat (MinFromTime tv)) (nat (SecFromTime tv)) @ ''Z'') = Some tv"
proof -
  let ?D = "datetime_string (YearFromTime tv) (nat (MonthFromTime tv + 1)) (nat (DateFromTime tv))
             (nat (HourFromTime tv)) (nat (MinFromTime tv)) (nat (SecFromTime tv))"
  have ms: "msFromTime tv = 0" using assms(2) by (simp add: msFromTime_def)
  have "toISOString tv = ?D @ ''.000Z''"
    by (simp add: toISOString_datetime_string ms three_digits_zero)
  then show "replace ''.000Z'' ''Z'' (toISOString tv) = ?D @ ''Z''"
    using replace_suffix [OF no_dot_datetime_string] by simp
  have m: "0 \<le> MonthFromTime tv" "MonthFromTime tv \<le> 11"
    using MonthFromTime_range [of tv] by simp_all
  have dd: "1 \<le> DateFromTime tv" "DateFromTime tv \<le> 31"
    using DateFromTime_range [of tv] by simp_all
  have t: "0 \<le> HourFromTime tv" "HourFromTime tv \<le> 23" "0 \<le> MinFromTime tv"
    "MinFromTime tv \<le> 59" "0 \<le> SecFromTime tv" "SecFromTime tv \<le> 59"
    using time_fields_range [of tv] by simp_all
  have r: "fields_in_range (int (nat (MonthFromTime tv + 1))) (int (nat (DateFromTime tv)))
      (int (nat (HourFromTime tv))) (int (nat (MinFromTime tv))) (int (nat (SecFromTime tv))) 0"
    using m dd t by (simp add: fields_in_range_def)
  have y: "- 999999 \<le> YearFromTime tv" "YearFromTime tv \<le> 999999"
    using YearFromTime_bounds [OF assms(1)] by simp_all
  have "Date_parse_iso tza (?D @ ''Z'') =
      TimeClip (MakeDate (MakeDay (YearFromTime tv) (int (nat (MonthFromTime tv + 1)) - 1)
          (int (nat (DateFromTime tv))))
        (MakeTime (int (nat (HourFromTime tv))) (int (nat (MinFromTime tv)))
          (int (nat (SecFromTime tv))) 0))"
    by (rule Date_parse_iso_datetime_string(2) [OF y r])
  also have "\<dots> = TimeClip (MakeDate (MakeDay (YearFromTime tv) (MonthFromTime tv) (DateFromTime tv))
        (MakeTime (HourFromTime tv) (MinFromTime tv) (SecFromTime tv) (msFromTime tv)))"
    using m dd t by (simp add: ms)
  also have "\<dots> = TimeClip tv" by (simp only: MakeDate_of_fields)
  also have "\<dots> = Some tv" using assms(1) by (simp add: TimeClip_def)
  finally show "Date_parse_iso tza (?D @ ''Z'') = Some tv" .
qed

lemma DaysBeforeMonth_range:
  "l = 0 \<or> l = 1 \<Longrightarrow> 0 \<le> DaysBeforeMonth l m \<and> DaysBeforeMonth l m \<le> 335"
  by (auto simp: DaysBeforeMonth_def)

lemma DaysInMonth_le: "DaysInMonth y mo \<le> 31"
  by (simp add: DaysInMonth_def)

lemma valid_fields_in_range:
  assumes "valid_local_datetime y mo d h mi s"
  shows "fields_in_range (int mo) (int d) (int h) (int mi) (int s) 0"
  using assms DaysInMonth_le [of "int y" mo]
  by (simp add: valid_local_datetime_def fields_in_range_def)

lemma local_time_value_bounds:
  assumes "valid_local_datetime y mo d h mi s"
  shows "- 62167219200000 \<le> local_time_value y mo d h mi s
         \<and> local_time_value y mo d h mi s \<le> 253500000000000
         \<and> local_time_value y mo d h mi s mod 1000 = 0"
proof -
  have v: "y \<le> 9999" "1 \<le> mo" "mo \<le> 12" "1 \<le> d" "d \<le> 31" "h \<le> 23" "mi \<le> 59" "s \<le> 59"
    using assms DaysInMonth_le [of "int y" mo] by (auto simp: valid_local_datetime_def)
  have m: "(int mo - 1) div 12 = 0" "(int mo - 1) mod 12 = int mo - 1"
    using v by simp_all
  define day where "day = MakeDay (int y) (int mo - 1) (int d)"
  define time where "time = MakeTime (int h) (int mi) (int s) 0"
  have y0: "DayFromYear 0 \<le> DayFromYear (int y)" by (rule DayFromYear_mono) simp
  have y1: "DayFromYear (int y) \<le> DayFromYear 9999" using v by (intro DayFromYear_mono) simp
  have n0: "DayFromYear 0 = - 719528" and n1: "DayFromYear 9999 = 2932532"
    by (simp_all add: DayFromYear_def)
  have b: "0 \<le> DaysBeforeMonth (InLeapYear (int y)) (int mo - 1)"
    "DaysBeforeMonth (InLeapYear (int y)) (int mo - 1) \<le> 335"
    using DaysBeforeMonth_range [OF InLeapYear_range] by simp_all
  have day: "- 719528 \<le> day" "day \<le> 2932898"
    using y0 y1 n0 n1 b v by (simp_all add: day_def MakeDay_def m Let_def)
  have time: "0 \<le> time" "time \<le> 86399000"
    using v by (simp_all add: time_def MakeTime_def)
  have d1000: "(1000::int) dvd day * 86400000 + time"
  proof -
    have "(1000::int) dvd day * 86400000" by simp
    moreover have "(1000::int) dvd time"
      unfolding time_def MakeTime_def by (intro dvd_add) simp_all
    ultimately show ?thesis by (rule dvd_add)
  qed
  have l: "local_time_value y mo d h mi s = day * 86400000 + time"
    by (simp add: local_time_value_def MakeDate_def msPerDay_def day_def time_def)
  show ?thesis
    unfolding l using day time d1000 by (simp add: mod_eq_0_iff_dvd)
qed

subsection \<open>Normalizing a local timestamp\<close>

text \<open>The example in the comment of \<^verbatim>\<open>toUTCISOString\<close>, for a host nine hours ahead of
  UTC.\<close>

lemma source_comment_example:
  "toUTCISOString (Date_parse_iso (\<lambda>tv. 32400000)) ''2026-01-01T12:34:56'' =
     Inr ''2026-01-01T03:34:56Z''"
  by code_simp

text \<open>
  Claim C5.  Take a real local date and time with a four-digit year, written
  \<^verbatim>\<open>YYYY-MM-DDTHH:mm:ss\<close>, on a host whose offset for that local time is a whole number
  of seconds and at most a day.  The instant it denotes is the time value of its fields
  less that offset.  Then \<^verbatim>\<open>new Date\<close> reads the string as this instant, and
  \<^verbatim>\<open>toUTCISOString\<close> returns the date and time of the instant in UTC down to the
  second, followed by \<^verbatim>\<open>Z\<close>: the string has no fraction (no \<^verbatim>\<open>.\<close>), the instant is a
  whole number of seconds, and parsing the string again, on a host in any zone, gives
  the same instant.
\<close>

theorem normalizer_round_trip:
  assumes "valid_local_datetime y mo d h mi s"
    and "tza (local_time_value y mo d h mi s) mod 1000 = 0"
    and "\<bar>tza (local_time_value y mo d h mi s)\<bar> \<le> msPerDay"
  shows "\<exists>tv out. tv = local_time_value y mo d h mi s - tza (local_time_value y mo d h mi s)
           \<and> Date_parse_iso tza (datetime_string (int y) mo d h mi s) = Some tv
           \<and> toUTCISOString (Date_parse_iso tza) (datetime_string (int y) mo d h mi s) = Inr out
           \<and> out = datetime_string (YearFromTime tv) (nat (MonthFromTime tv + 1))
                 (nat (DateFromTime tv)) (nat (HourFromTime tv)) (nat (MinFromTime tv))
                 (nat (SecFromTime tv)) @ ''Z''
           \<and> CHR ''.'' \<notin> set out
           \<and> tv mod 1000 = 0
           \<and> Date_parse_iso tza' out = Some tv"
proof -
  let ?L = "local_time_value y mo d h mi s"
  let ?tv = "?L - tza ?L"
  have L: "- 62167219200000 \<le> ?L" "?L \<le> 253500000000000" "?L mod 1000 = 0"
    using local_time_value_bounds [OF assms(1)] by simp_all
  have clip: "\<bar>?tv\<bar> \<le> 8640000000000000"
    using L(1,2) assms(3) by (simp add: msPerDay_def)
  have whole: "?tv mod 1000 = 0"
    using L(3) assms(2) by (simp add: mod_eq_0_iff_dvd)
  have y: "- 999999 \<le> int y" "int y \<le> 999999"
    using assms(1) by (simp_all add: valid_local_datetime_def)
  have "Date_parse_iso tza (datetime_string (int y) mo d h mi s) = TimeClip ?tv"
    using Date_parse_iso_datetime_string(1) [OF y valid_fields_in_range [OF assms(1)]]
    by (simp add: local_time_value_def)
  then have p: "Date_parse_iso tza (datetime_string (int y) mo d h mi s) = Some ?tv"
    using clip by (simp add: TimeClip_def)
  let ?out = "datetime_string (YearFromTime ?tv) (nat (MonthFromTime ?tv + 1))
      (nat (DateFromTime ?tv)) (nat (HourFromTime ?tv)) (nat (MinFromTime ?tv))
      (nat (SecFromTime ?tv)) @ ''Z''"
  have res: "toUTCISOString (Date_parse_iso tza) (datetime_string (int y) mo d h mi s) = Inr ?out"
    by (simp add: toUTCISOString_def p parse_back(1) [OF clip whole])
  have nd: "CHR ''.'' \<notin> set ?out"
    by (simp add: no_dot_datetime_string)
  have again: "Date_parse_iso tza' ?out = Some ?tv"
    by (rule parse_back(2) [OF clip whole])
  show ?thesis
    by (rule exI [of _ ?tv], rule exI [of _ ?out]) (intro conjI refl p res nd whole again)
qed

theorem normalizer_round_trip_witness:
  "\<exists>tv out. tv = local_time_value 2026 1 1 12 34 56 - 32400000
     \<and> Date_parse_iso (\<lambda>tv. 32400000) (datetime_string (int 2026) 1 1 12 34 56) = Some tv
     \<and> toUTCISOString (Date_parse_iso (\<lambda>tv. 32400000)) (datetime_string (int 2026) 1 1 12 34 56)
         = Inr out
     \<and> out = datetime_string (YearFromTime tv) (nat (MonthFromTime tv + 1))
           (nat (DateFromTime tv)) (nat (HourFromTime tv)) (nat (MinFromTime tv))
           (nat (SecFromTime tv)) @ ''Z''
     \<and> CHR ''.'' \<notin> set out
     \<and> tv mod 1000 = 0
     \<and> Date_parse_iso (\<lambda>tv. 0) out = Some tv"
proof -
  have v: "valid_local_datetime 2026 1 1 12 34 56"
    by (simp add: valid_local_datetime_def DaysInMonth_def)
  have z: "(\<lambda>tv. 32400000 :: int) (local_time_value 2026 1 1 12 34 56) mod 1000 = 0"
    by simp
  have b: "\<bar>(\<lambda>tv. 32400000 :: int) (local_time_value 2026 1 1 12 34 56)\<bar> \<le> msPerDay"
    by (simp add: msPerDay_def)
  show ?thesis
    by (rule normalizer_round_trip [OF v z b])
qed

end
